theory Spec2Isabelle
  imports Main "HOL-Library.Word"
begin

unbundle bit_operations_syntax

section \<open>NdbTCP.cpp: address resolution, address text, endpoint strings, socket probe\<close>

text \<open>
  A shallow embedding of \<^verbatim>\<open>storage/ndb/src/common/portlib/NdbTCP.cpp\<close>.
  The operating system's collaborators (\<^verbatim>\<open>getaddrinfo\<close>, \<^verbatim>\<open>getnameinfo\<close>,
  \<^verbatim>\<open>poll\<close>, \<^verbatim>\<open>select\<close>, \<^verbatim>\<open>getsockopt\<close>) are parameters of the functions that
  call them. Output parameters are passed in and returned: a function that returns
  \<^verbatim>\<open>int\<close> and writes through a pointer returns the pair of both.
\<close>

subsection \<open>Data\<close>

type_synonym byte = "8 word"

text \<open>
  The address family tags of \<^verbatim>\<open><sys/socket.h>\<close>. Their numbers differ between
  platforms; the code only compares them for equality.
\<close>

datatype address_family = AF_UNSPEC | AF_INET | AF_INET6 | AF_UNIX

text \<open>
  \<^verbatim>\<open>struct sockaddr_in\<close> and \<^verbatim>\<open>struct sockaddr_in6\<close>, with the fields the file
  touches. \<open>sin_addr\<close> is the four bytes of \<^verbatim>\<open>sin_addr.s_addr\<close> as they lie in memory
  (network order), \<open>sin6_addr\<close> the sixteen bytes of \<^verbatim>\<open>sin6_addr.s6_addr\<close>.
\<close>

record sockaddr_in =
  sin_family :: address_family
  sin_addr :: "byte list"

record sockaddr_in6 =
  sin6_family :: address_family
  sin6_addr :: "byte list"
  sin6_scope_id :: "32 word"

text \<open>
  One node of the list \<^verbatim>\<open>getaddrinfo\<close> returns. \<^verbatim>\<open>ai_addr\<close> of a node whose
  \<^verbatim>\<open>ai_family\<close> is \<^verbatim>\<open>AF_INET\<close> points to a \<^verbatim>\<open>sockaddr_in\<close>, of an
  \<^verbatim>\<open>AF_INET6\<close> node to a \<^verbatim>\<open>sockaddr_in6\<close>; the code casts on that tag, so tag
  and address are one tagged union here. The list itself (\<^verbatim>\<open>ai_next\<close>) is a HOL list,
  and a pointer into the list is the suffix that starts at the node pointed to, with
  \<open>[]\<close> for \<^verbatim>\<open>nullptr\<close>.
\<close>

datatype addrinfo =
  Addrinfo_in sockaddr_in
| Addrinfo_in6 sockaddr_in6
| Addrinfo_other

fun ai_family :: "addrinfo \<Rightarrow> address_family" where
  "ai_family (Addrinfo_in a) = AF_INET"
| "ai_family (Addrinfo_in6 a) = AF_INET6"
| "ai_family Addrinfo_other = AF_UNSPEC"

fun ai_scope_id :: "addrinfo \<Rightarrow> 32 word" where
  "ai_scope_id (Addrinfo_in6 a) = sin6_scope_id a"
| "ai_scope_id _ = 0"

subsection \<open>Memory primitives on byte lists\<close>

text \<open>
  \<^verbatim>\<open>memset(&buf[off], v, n)\<close> and \<^verbatim>\<open>memcpy(&buf[off], src, n)\<close> on a buffer that is a
  list of bytes. A write past the end of the list falls outside the modelled buffer
  and is dropped; so is a single store \<open>buf[i := c]\<close> with \<open>i\<close> past the end.
\<close>

definition store :: "'a list \<Rightarrow> nat \<Rightarrow> 'a list \<Rightarrow> 'a list" where
  "store buf off xs = take (length buf) (take off buf @ xs @ drop (off + length xs) buf)"

definition memset_at :: "'a list \<Rightarrow> nat \<Rightarrow> 'a \<Rightarrow> nat \<Rightarrow> 'a list" where
  "memset_at buf off v n = store buf off (replicate n v)"

definition memcpy_at :: "'a list \<Rightarrow> nat \<Rightarrow> 'a list \<Rightarrow> nat \<Rightarrow> 'a list" where
  "memcpy_at buf off src n = store buf off (take n src)"

subsection \<open>The resolver\<close>

text \<open>\<^verbatim>\<open>Ndb_make_ipv6_from_ipv4\<close> (lines 40-51): three writes into \<^verbatim>\<open>dst\<close>.\<close>

definition Ndb_make_ipv6_from_ipv4 :: "sockaddr_in6 \<Rightarrow> sockaddr_in \<Rightarrow> sockaddr_in6" where
  "Ndb_make_ipv6_from_ipv4 dst src =
     (let dst1 = dst\<lparr>sin6_family := AF_INET6\<rparr>;
          dst2 = dst1\<lparr>sin6_addr := memset_at (sin6_addr dst1) 0 0 10\<rparr>;
          dst3 = dst2\<lparr>sin6_addr := memset_at (sin6_addr dst2) 10 0xff 2\<rparr>
      in dst3\<lparr>sin6_addr := memcpy_at (sin6_addr dst3) 12 (sin_addr src) 4\<rparr>)"

text \<open>
  The loop of \<^verbatim>\<open>get_preferred_address\<close> (lines 63-81). The state is the pair of
  \<^verbatim>\<open>ai_pref\<close> and \<^verbatim>\<open>ai_list\<close>; the result is the state in which the loop is left,
  by \<^verbatim>\<open>break\<close> (then \<^verbatim>\<open>ai_list\<close> still points to the IPv4 node) or because
  \<^verbatim>\<open>ai_list\<close> became \<^verbatim>\<open>nullptr\<close>.
\<close>

fun preferred_loop :: "addrinfo list \<Rightarrow> addrinfo list \<Rightarrow> addrinfo list \<times> addrinfo list" where
  "preferred_loop ai_pref [] = (ai_pref, [])"
| "preferred_loop ai_pref (ai # ai_next) =
     (if ai_family ai = AF_INET then (ai # ai_next, ai # ai_next)
      else if ai_pref = [] \<and> ai_family ai = AF_INET6 then
        (if ai_scope_id ai = 0 then preferred_loop (ai # ai_next) ai_next
         else preferred_loop ai_pref ai_next)
      else preferred_loop ai_pref ai_next)"

definition get_preferred_address :: "addrinfo list \<Rightarrow> addrinfo list" where
  "get_preferred_address ai_list = fst (preferred_loop [] ai_list)"

text \<open>
  \<^verbatim>\<open>get_in6_addr\<close> (lines 85-111). \<open>addr6\<close> is the local \<^verbatim>\<open>sockaddr_in6 addr6\<close>,
  which the code does not initialise: whatever the stack holds is a parameter.
\<close>

definition get_in6_addr :: "sockaddr_in6 \<Rightarrow> byte list \<Rightarrow> addrinfo list \<Rightarrow> int \<times> byte list" where
  "get_in6_addr addr6 dst src =
     (case src of
        [] \<Rightarrow> (- 1, dst)
      | Addrinfo_in addr4 # _ \<Rightarrow>
          (0, memcpy_at dst 0 (sin6_addr (Ndb_make_ipv6_from_ipv4 addr6 addr4)) 16)
      | Addrinfo_in6 a6 # _ \<Rightarrow> (0, memcpy_at dst 0 (sin6_addr a6) 16)
      | Addrinfo_other # _ \<Rightarrow> (- 1, dst))"

text \<open>
  \<^verbatim>\<open>Ndb_getInAddr6\<close> (lines 113-137). \<open>getaddrinfo\<close> is the resolver: for a name it
  gives its return code and the list it stores through \<^verbatim>\<open>&ai_list\<close>.
\<close>

definition Ndb_getInAddr6 ::
  "(string \<Rightarrow> int \<times> addrinfo list) \<Rightarrow> sockaddr_in6 \<Rightarrow> byte list \<Rightarrow> string \<Rightarrow> int \<times> byte list" where
  "Ndb_getInAddr6 getaddrinfo addr6 dst address =
     (case getaddrinfo address of (rc, ai_list) \<Rightarrow>
        if rc \<noteq> 0 then (- 1, dst)
        else let ai_pref = get_preferred_address ai_list
             in get_in6_addr addr6 dst ai_pref)"

subsection \<open>C strings\<close>

text \<open>
  A \<^verbatim>\<open>const char *\<close> is the list of the bytes in memory from the address on, the
  terminator and what lies behind it included; memory behind the last byte of the list
  reads as \<^verbatim>\<open>'\0'\<close>. A pointer into the string is an offset. So the string
  \<^verbatim>\<open>"ab"\<close> is \<open>''ab''\<close> as well as \<open>''ab'' @ [NUL] @ ''xyz''\<close>: the second says
  which bytes follow the terminator in memory.
\<close>

definition NUL :: char where
  "NUL = CHR 0x00"

definition rd :: "char list \<Rightarrow> nat \<Rightarrow> char" where
  "rd m p = (if p < length m then m ! p else NUL)"

text \<open>The string that starts at offset \<open>p\<close>: the bytes before the first terminator.\<close>

definition c_str :: "char list \<Rightarrow> nat \<Rightarrow> string" where
  "c_str m p = takeWhile (\<lambda>c. c \<noteq> NUL) (drop p m)"

definition c_strlen :: "char list \<Rightarrow> nat \<Rightarrow> nat" where
  "c_strlen m p = length (c_str m p)"

text \<open>
  \<^verbatim>\<open>strchr(m + p, c)\<close> for a \<open>c\<close> other than the terminator: the offset of the first
  \<open>c\<close> in the string at \<open>p\<close>, \<open>None\<close> for \<^verbatim>\<open>nullptr\<close>.
\<close>

definition c_strchr :: "char list \<Rightarrow> nat \<Rightarrow> char \<Rightarrow> nat option" where
  "c_strchr m p c =
     (if c \<in> set (c_str m p) then Some (p + length (takeWhile (\<lambda>x. x \<noteq> c) (c_str m p)))
      else None)"

text \<open>
  \<^verbatim>\<open>strncpy(dst, src, n)\<close>, \<open>s\<close> being the string at \<^verbatim>\<open>src\<close>: at most \<open>n\<close> characters
  of \<open>s\<close>, then terminators until \<open>n\<close> bytes are written.
\<close>

definition c_strncpy :: "char list \<Rightarrow> string \<Rightarrow> nat \<Rightarrow> char list" where
  "c_strncpy dst s n = store dst 0 (take n (s @ replicate n NUL))"

text \<open>\<^verbatim>\<open>strncmp(a, b, n) == 0\<close>.\<close>

definition c_strncmp_eq :: "char list \<Rightarrow> char list \<Rightarrow> nat \<Rightarrow> bool" where
  "c_strncmp_eq a b n = (take n (c_str a 0) = take n (c_str b 0))"

text \<open>
  \<^verbatim>\<open>snprintf(buf, bufsize, ...)\<close>, \<open>s\<close> being the formatted text: at most
  \<open>bufsize - 1\<close> characters of it and a terminator; nothing when \<open>bufsize\<close> is 0.
\<close>

definition c_snprintf :: "char list \<Rightarrow> nat \<Rightarrow> string \<Rightarrow> char list" where
  "c_snprintf buf bufsize s =
     (if bufsize = 0 then buf else store buf 0 (take (bufsize - 1) s @ [NUL]))"

text \<open>The conversion \<^verbatim>\<open>%d\<close> of a value that is not negative.\<close>

fun decimal :: "nat \<Rightarrow> string" where
  "decimal n =
     (if n < 10 then [''0123456789'' ! n]
      else decimal (n div 10) @ [''0123456789'' ! (n mod 10)])"

declare decimal.simps [simp del]

subsection \<open>The address formatter\<close>

datatype sockaddr = Sockaddr_in sockaddr_in | Sockaddr_in6 sockaddr_in6

definition mapped_prefix :: string where
  "mapped_prefix = ''::ffff:''"

definition mapped_prefix_len :: nat where
  "mapped_prefix_len = c_strlen mapped_prefix 0"

text \<open>Lines 207-212: \<^verbatim>\<open>strncpy(dst, "null", dst_size); dst[dst_size-1] = 0\<close>.\<close>

definition null_sentinel :: "char list \<Rightarrow> nat \<Rightarrow> char list" where
  "null_sentinel dst dst_size = (c_strncpy dst ''null'' dst_size)[dst_size - 1 := NUL]"

text \<open>
  The socket addresses \<^verbatim>\<open>Ndb_inet_ntop\<close> hands to \<^verbatim>\<open>getnameinfo\<close>: the local
  \<^verbatim>\<open>sa\<close> after \<^verbatim>\<open>memset\<close> to 0, \<^verbatim>\<open>memcpy\<close> of the address and the store of
  the family (lines 156-159 and 175-178). \<open>src\<close> is the bytes at \<^verbatim>\<open>src\<close>.
\<close>

definition ntop_sockaddr_in :: "byte list \<Rightarrow> sockaddr_in" where
  "ntop_sockaddr_in src =
     \<lparr>sin_family = AF_INET, sin_addr = memcpy_at (replicate 4 0) 0 src 4\<rparr>"

definition ntop_sockaddr_in6 :: "byte list \<Rightarrow> sockaddr_in6" where
  "ntop_sockaddr_in6 src =
     \<lparr>sin6_family = AF_INET6, sin6_addr = memcpy_at (replicate 16 0) 0 src 16,
      sin6_scope_id = 0\<rparr>"

text \<open>
  \<^verbatim>\<open>Ndb_inet_ntop\<close> (lines 139-213). \<open>getnameinfo\<close> is the numeric rendering
  (\<^verbatim>\<open>NI_NUMERICHOST\<close>, no service): from the socket address, the buffer and its size it
  gives the return code and the buffer it leaves. The result is the buffer behind the
  returned \<^verbatim>\<open>dst\<close>; \<open>None\<close> is the failed \<^verbatim>\<open>assert(dst_size > 0)\<close>.
\<close>

definition Ndb_inet_ntop ::
  "(sockaddr \<Rightarrow> char list \<Rightarrow> nat \<Rightarrow> int \<times> char list) \<Rightarrow> address_family \<Rightarrow> byte list \<Rightarrow>
     char list \<Rightarrow> nat \<Rightarrow> char list option" where
  "Ndb_inet_ntop getnameinfo af src dst dst_size =
     (if dst_size = 0 then None
      else case af of
        AF_INET \<Rightarrow>
          (case getnameinfo (Sockaddr_in (ntop_sockaddr_in src)) dst dst_size of (ret, dst1) \<Rightarrow>
             if ret \<noteq> 0 then Some (null_sentinel dst1 dst_size) else Some dst1)
      | AF_INET6 \<Rightarrow>
          (case getnameinfo (Sockaddr_in6 (ntop_sockaddr_in6 src)) dst dst_size of (ret, dst1) \<Rightarrow>
             let dst2 =
               (if c_strncmp_eq mapped_prefix dst1 mapped_prefix_len
                then store dst1 0
                       (take (c_strlen dst1 0 - mapped_prefix_len + 1)
                          (drop mapped_prefix_len dst1))
                else dst1)
             in if ret \<noteq> 0 then Some (null_sentinel dst2 dst_size) else Some dst2)
      | _ \<Rightarrow> Some (null_sentinel dst dst_size))"

subsection \<open>The endpoint string codec\<close>

text \<open>
  \<^verbatim>\<open>Ndb_split_string_address_port\<close> (lines 231-291). \<open>arg\<close> is the memory at
  \<^verbatim>\<open>arg\<close>, \<open>host\<close> and \<open>serv\<close> the two buffers before the call; the result is the
  return code and the two buffers after it. \<open>port_colon - 2\<close> stands for
  \<^verbatim>\<open>port_colon - arg - 2\<close>: \<open>arg\<close> is offset 0, and \<open>port_colon\<close> is at least 2
  there, the bracket found being behind the opening one.
\<close>

definition Ndb_split_string_address_port ::
  "char list \<Rightarrow> char list \<Rightarrow> nat \<Rightarrow> char list \<Rightarrow> nat \<Rightarrow> int \<times> char list \<times> char list" where
  "Ndb_split_string_address_port arg host hostlen serv servlen =
     (if rd arg 0 = CHR ''['' then
        (case c_strchr arg 0 CHR '']'' of
           None \<Rightarrow> (- 1, host, serv)
         | Some check_closing_bracket \<Rightarrow>
             let port_colon = check_closing_bracket + 1 in
             if rd arg port_colon = CHR '':'' \<or> rd arg port_colon = NUL then
               let copy_bytes = port_colon - 2 in
               if copy_bytes \<ge> hostlen \<or> c_strlen arg (port_colon + 1) \<ge> servlen
               then (- 1, host, serv)
               else
                 (case c_strchr arg 1 CHR '':'' of
                    None \<Rightarrow> (- 1, host, serv)
                  | Some first_colon \<Rightarrow>
                      if first_colon \<ge> port_colon then (- 1, host, serv)
                      else
                        let host1 = c_strncpy host (c_str arg 1) copy_bytes;
                            host2 = host1[copy_bytes := NUL];
                            serv1 =
                              (if rd arg port_colon = CHR '':''
                               then c_strncpy serv (c_str arg (port_colon + 1)) servlen
                               else serv[0 := NUL])
                        in (0, host2, serv1))
             else (- 1, host, serv))
      else
        (case c_strchr arg 0 CHR '':'' of
           Some port_colon \<Rightarrow>
             if c_strchr arg (port_colon + 1) CHR '':'' = None then
               (let copy_bytes = port_colon in
                if copy_bytes \<ge> hostlen \<or> c_strlen arg (port_colon + 1) \<ge> servlen
                then (- 1, host, serv)
                else
                  let host1 = c_strncpy host (c_str arg 0) copy_bytes;
                      host2 = host1[port_colon := NUL];
                      serv1 = c_strncpy serv (c_str arg (port_colon + 1)) servlen;
                      serv2 = serv1[servlen - 1 := NUL]
                  in (0, host2, serv2))
             else
               (if c_strlen arg 0 \<ge> hostlen then (- 1, host, serv)
                else
                  let host1 = c_strncpy host (c_str arg 0) hostlen;
                      host2 = host1[hostlen - 1 := NUL]
                  in (0, host2, serv[0 := NUL]))
         | None \<Rightarrow>
             (if c_strlen arg 0 \<ge> hostlen then (- 1, host, serv)
              else
                let host1 = c_strncpy host (c_str arg 0) hostlen;
                    host2 = host1[hostlen - 1 := NUL]
                in (0, host2, serv[0 := NUL]))))"

text \<open>
  \<^verbatim>\<open>Ndb_combine_address_port\<close> (lines 293-312). \<open>host\<close> is \<open>None\<close> for
  \<^verbatim>\<open>nullptr\<close>, else the memory at \<^verbatim>\<open>host\<close>; \<open>port\<close> is the \<^verbatim>\<open>Uint16\<close>. The result
  is the buffer behind the returned \<^verbatim>\<open>buf\<close>.
\<close>

definition Ndb_combine_address_port ::
  "char list \<Rightarrow> nat \<Rightarrow> char list option \<Rightarrow> 16 word \<Rightarrow> char list" where
  "Ndb_combine_address_port buf bufsize host port =
     (case host of
        None \<Rightarrow> c_snprintf buf bufsize (''*:'' @ decimal (unat port))
      | Some h \<Rightarrow>
          if c_strchr h 0 CHR '':'' = None
          then c_snprintf buf bufsize (c_str h 0 @ '':'' @ decimal (unat port))
          else c_snprintf buf bufsize (''['' @ c_str h 0 @ '']:'' @ decimal (unat port)))"

text \<open>
  The parsing rules as section 4.3 of the specification words them, on the input
  string alone: the host and the service the input holds, or \<open>None\<close> for a
  \<^verbatim>\<open>FormatError\<close> of the input's shape. The buffers are not part of it.
\<close>

definition spec_split :: "string \<Rightarrow> (string \<times> string) option" where
  "spec_split s =
     (case s of
        [] \<Rightarrow> Some ([], [])
      | c # t \<Rightarrow>
          if c = CHR ''['' then
            (if CHR '']'' \<in> set t then
               (let h = takeWhile (\<lambda>x. x \<noteq> CHR '']'') t;
                    after = tl (dropWhile (\<lambda>x. x \<noteq> CHR '']'') t)
                in if CHR '':'' \<in> set h then
                     (case after of
                        [] \<Rightarrow> Some (h, [])
                      | d # sv \<Rightarrow> if d = CHR '':'' then Some (h, sv) else None)
                   else None)
             else None)
          else if count_list s CHR '':'' = 1 then
            Some (takeWhile (\<lambda>x. x \<noteq> CHR '':'') s, tl (dropWhile (\<lambda>x. x \<noteq> CHR '':'') s))
          else Some (s, []))"

subsection \<open>The socket liveness probe\<close>

text \<open>
  \<^verbatim>\<open>struct pollfd\<close> and the event bits of \<^verbatim>\<open><poll.h>\<close> (the values Linux gives
  them; the code only combines and tests them).
\<close>

record pollfd =
  fd :: int
  events :: "16 word"
  revents :: "16 word"

definition POLLIN :: "16 word" where "POLLIN = 0x001"
definition POLLOUT :: "16 word" where "POLLOUT = 0x004"
definition POLLERR :: "16 word" where "POLLERR = 0x008"
definition POLLHUP :: "16 word" where "POLLHUP = 0x010"
definition POLLNVAL :: "16 word" where "POLLNVAL = 0x020"

text \<open>
  The branch under \<^verbatim>\<open>HAVE_POLL\<close> (lines 494-504). \<open>poll\<close> is the system call on the
  one-element array with its timeout: the return code and the array it leaves.
\<close>

definition check_socket_hup_poll :: "(pollfd \<Rightarrow> int \<Rightarrow> int \<times> pollfd) \<Rightarrow> int \<Rightarrow> int" where
  "check_socket_hup_poll poll sock =
     (let pfd = \<lparr>fd = sock, events = POLLHUP OR POLLIN OR POLLOUT OR POLLNVAL, revents = 0\<rparr>
      in case poll pfd 0 of (r, pfd') \<Rightarrow>
           if revents pfd' AND (POLLHUP OR POLLERR) \<noteq> 0 then 1 else 0)"

text \<open>\<^verbatim>\<open>ndb_socket_nfds\<close> (lines 474-484), not on Windows.\<close>

definition ndb_socket_nfds :: "int \<Rightarrow> int \<Rightarrow> int" where
  "ndb_socket_nfds s nfds = (if s > nfds then s else nfds)"

text \<open>
  The branch without \<^verbatim>\<open>HAVE_POLL\<close> (lines 506-537). An \<^verbatim>\<open>fd_set\<close> is the set of
  its descriptors. \<open>select\<close> is the system call with the zero timeout: the return code
  and the three sets it leaves. \<open>getsockopt\<close> is the query of \<^verbatim>\<open>SO_ERROR\<close>: from the
  socket and the value of \<^verbatim>\<open>s_err\<close> before, the return code and \<^verbatim>\<open>s_err\<close> after.
\<close>

definition check_socket_hup_select ::
  "(int \<Rightarrow> int set \<Rightarrow> int set \<Rightarrow> int set \<Rightarrow> int \<times> int set \<times> int set \<times> int set) \<Rightarrow>
     (int \<Rightarrow> int \<Rightarrow> int \<times> int) \<Rightarrow> int \<Rightarrow> int" where
  "check_socket_hup_select select getsockopt sock =
     (case select (ndb_socket_nfds sock 0 + 1) {sock} {sock} {sock} of
        (r, readfds, writefds, errorfds) \<Rightarrow>
          if r < 0 then 1
          else if sock \<in> errorfds then 1
          else case getsockopt sock 0 of (g, s_err) \<Rightarrow>
                 if g \<noteq> 0 then 1 else if s_err \<noteq> 0 then 1 else 0)"

text \<open>\<^verbatim>\<open>Ndb_check_socket_hup\<close> (lines 491-539); \<open>have_poll\<close> is the macro \<^verbatim>\<open>HAVE_POLL\<close>.\<close>

definition Ndb_check_socket_hup ::
  "bool \<Rightarrow> (pollfd \<Rightarrow> int \<Rightarrow> int \<times> pollfd) \<Rightarrow>
     (int \<Rightarrow> int set \<Rightarrow> int set \<Rightarrow> int set \<Rightarrow> int \<times> int set \<times> int set \<times> int set) \<Rightarrow>
     (int \<Rightarrow> int \<Rightarrow> int \<times> int) \<Rightarrow> int \<Rightarrow> int" where
  "Ndb_check_socket_hup have_poll poll select getsockopt sock =
     (if have_poll then check_socket_hup_poll poll sock
      else check_socket_hup_select select getsockopt sock)"

section \<open>Properties\<close>

subsection \<open>The resolver\<close>

lemma preferred_loop_eq:
  "preferred_loop ai_pref ai_list =
     (let v4 = dropWhile (\<lambda>a. ai_family a \<noteq> AF_INET) ai_list
      in if v4 \<noteq> [] then (v4, v4)
         else (if ai_pref \<noteq> [] then ai_pref
               else dropWhile (\<lambda>a. \<not> (ai_family a = AF_INET6 \<and> ai_scope_id a = 0)) ai_list, []))"
proof (induction ai_list arbitrary: ai_pref)
  case Nil
  show ?case by simp
next
  case (Cons ai ai_next)
  show ?case
    by (cases "ai_family ai = AF_INET") (simp_all add: Cons.IH Let_def)
qed

text \<open>
  C1. The selection of \<^verbatim>\<open>get_preferred_address\<close>: if the list has an IPv4 entry, the
  result points to the first one, and the scan has stopped there (the loop is left with
  \<^verbatim>\<open>ai_list\<close> at that entry); otherwise the scan runs to the end of the list and the
  result points to the first IPv6 entry whose scope identifier is zero, so an IPv4 entry
  behind such an IPv6 entry still wins. If the resolver succeeds with a list that has
  neither an IPv4 entry nor an IPv6 entry of scope zero, \<^verbatim>\<open>Ndb_getInAddr6\<close> returns -1.
\<close>

theorem get_preferred_address_policy:
  "get_preferred_address ai_list =
     (if \<exists>a \<in> set ai_list. ai_family a = AF_INET
      then dropWhile (\<lambda>a. ai_family a \<noteq> AF_INET) ai_list
      else dropWhile (\<lambda>a. \<not> (ai_family a = AF_INET6 \<and> ai_scope_id a = 0)) ai_list)
   \<and> snd (preferred_loop [] ai_list) = dropWhile (\<lambda>a. ai_family a \<noteq> AF_INET) ai_list
   \<and> (getaddrinfo address = (0, ai_list) \<longrightarrow>
        (\<forall>a \<in> set ai_list. ai_family a \<noteq> AF_INET \<and> \<not> (ai_family a = AF_INET6 \<and> ai_scope_id a = 0)) \<longrightarrow>
        Ndb_getInAddr6 getaddrinfo addr6 dst address = (- 1, dst))"
proof -
  let ?v4 = "dropWhile (\<lambda>a. ai_family a \<noteq> AF_INET) ai_list"
  let ?v6 = "dropWhile (\<lambda>a. \<not> (ai_family a = AF_INET6 \<and> ai_scope_id a = 0)) ai_list"
  have v4: "(?v4 \<noteq> []) = (\<exists>a \<in> set ai_list. ai_family a = AF_INET)"
    by simp
  have sel: "get_preferred_address ai_list = (if ?v4 \<noteq> [] then ?v4 else ?v6)"
    by (simp add: get_preferred_address_def preferred_loop_eq Let_def)
  have pos: "snd (preferred_loop [] ai_list) = ?v4"
  proof (cases "?v4 = []")
    case True
    then show ?thesis by (simp only: preferred_loop_eq Let_def) simp
  next
    case False
    then show ?thesis by (simp only: preferred_loop_eq Let_def) simp
  qed
  have fail: "Ndb_getInAddr6 getaddrinfo addr6 dst address = (- 1, dst)"
    if "getaddrinfo address = (0, ai_list)"
      and "\<forall>a \<in> set ai_list. ai_family a \<noteq> AF_INET \<and> \<not> (ai_family a = AF_INET6 \<and> ai_scope_id a = 0)"
  proof -
    from that(2) have "?v4 = []" "?v6 = []"
      by simp_all
    then have "get_preferred_address ai_list = []"
      by (simp add: sel)
    then show ?thesis
      by (simp add: Ndb_getInAddr6_def that(1) get_in6_addr_def)
  qed
  from sel v4 pos fail show ?thesis by auto
qed

theorem get_preferred_address_policy_witness:
  "get_preferred_address
     [Addrinfo_in6 \<lparr>sin6_family = AF_INET6, sin6_addr = replicate 16 1, sin6_scope_id = 3\<rparr>,
      Addrinfo_in6 \<lparr>sin6_family = AF_INET6, sin6_addr = replicate 16 2, sin6_scope_id = 0\<rparr>,
      Addrinfo_in \<lparr>sin_family = AF_INET, sin_addr = [10, 0, 0, 1]\<rparr>,
      Addrinfo_in \<lparr>sin_family = AF_INET, sin_addr = [10, 0, 0, 2]\<rparr>] =
     [Addrinfo_in \<lparr>sin_family = AF_INET, sin_addr = [10, 0, 0, 1]\<rparr>,
      Addrinfo_in \<lparr>sin_family = AF_INET, sin_addr = [10, 0, 0, 2]\<rparr>]
   \<and> get_preferred_address
     [Addrinfo_in6 \<lparr>sin6_family = AF_INET6, sin6_addr = replicate 16 1, sin6_scope_id = 3\<rparr>,
      Addrinfo_in6 \<lparr>sin6_family = AF_INET6, sin6_addr = replicate 16 2, sin6_scope_id = 0\<rparr>,
      Addrinfo_in6 \<lparr>sin6_family = AF_INET6, sin6_addr = replicate 16 4, sin6_scope_id = 0\<rparr>] =
     [Addrinfo_in6 \<lparr>sin6_family = AF_INET6, sin6_addr = replicate 16 2, sin6_scope_id = 0\<rparr>,
      Addrinfo_in6 \<lparr>sin6_family = AF_INET6, sin6_addr = replicate 16 4, sin6_scope_id = 0\<rparr>]
   \<and> Ndb_getInAddr6
       (\<lambda>name. (0, [Addrinfo_in6 \<lparr>sin6_family = AF_INET6, sin6_addr = replicate 16 1, sin6_scope_id = 3\<rparr>,
                     Addrinfo_other]))
       \<lparr>sin6_family = AF_UNSPEC, sin6_addr = replicate 16 0, sin6_scope_id = 0\<rparr>
       (replicate 16 0x55) ''fe80::1%eth0'' = (- 1, replicate 16 0x55)"
  using get_preferred_address_policy
    [of "[Addrinfo_in6 \<lparr>sin6_family = AF_INET6, sin6_addr = replicate 16 1, sin6_scope_id = 3\<rparr>,
          Addrinfo_in6 \<lparr>sin6_family = AF_INET6, sin6_addr = replicate 16 2, sin6_scope_id = 0\<rparr>,
          Addrinfo_in \<lparr>sin_family = AF_INET, sin_addr = [10, 0, 0, 1]\<rparr>,
          Addrinfo_in \<lparr>sin_family = AF_INET, sin_addr = [10, 0, 0, 2]\<rparr>]"]
    get_preferred_address_policy
    [of "[Addrinfo_in6 \<lparr>sin6_family = AF_INET6, sin6_addr = replicate 16 1, sin6_scope_id = 3\<rparr>,
          Addrinfo_in6 \<lparr>sin6_family = AF_INET6, sin6_addr = replicate 16 2, sin6_scope_id = 0\<rparr>,
          Addrinfo_in6 \<lparr>sin6_family = AF_INET6, sin6_addr = replicate 16 4, sin6_scope_id = 0\<rparr>]"]
    get_preferred_address_policy
    [of "[Addrinfo_in6 \<lparr>sin6_family = AF_INET6, sin6_addr = replicate 16 1, sin6_scope_id = 3\<rparr>,
          Addrinfo_other]"
        "\<lambda>name. (0, [Addrinfo_in6 \<lparr>sin6_family = AF_INET6, sin6_addr = replicate 16 1, sin6_scope_id = 3\<rparr>,
                     Addrinfo_other])"
        "''fe80::1%eth0''"
        "\<lparr>sin6_family = AF_UNSPEC, sin6_addr = replicate 16 0, sin6_scope_id = 0\<rparr>"
        "replicate 16 0x55"]
  by simp

lemma make_ipv6_bytes:
  assumes "length (sin6_addr dst) = 16" and "length (sin_addr src) = 4"
  shows "sin6_addr (Ndb_make_ipv6_from_ipv4 dst src) = replicate 10 0 @ [0xff, 0xff] @ sin_addr src"
proof -
  have two: "replicate 2 (0xff::byte) = [0xff, 0xff]"
    by (simp add: numeral_2_eq_2)
  show ?thesis
    using assms
    by (simp add: Ndb_make_ipv6_from_ipv4_def Let_def memset_at_def memcpy_at_def store_def two)
qed

lemma memcpy_whole:
  "length dst = n \<Longrightarrow> length src = n \<Longrightarrow> memcpy_at dst 0 src n = src"
  by (simp add: memcpy_at_def store_def)

text \<open>
  C5. The internal address of an IPv4 candidate is the IPv4-mapped value: ten bytes 0,
  two bytes 0xff, then the four bytes of the IPv4 address, whatever the uninitialised
  local and the destination held before; the sixteen bytes of an IPv6 candidate are
  copied as they are.
\<close>

theorem internal_address_bytes:
  assumes "length (sin6_addr addr6) = 16" and "length dst = 16"
  shows "(length (sin_addr addr4) = 4 \<longrightarrow>
            sin6_addr (Ndb_make_ipv6_from_ipv4 addr6 addr4) =
              replicate 10 0 @ [0xff, 0xff] @ sin_addr addr4
          \<and> get_in6_addr addr6 dst (Addrinfo_in addr4 # ai_next) =
              (0, replicate 10 0 @ [0xff, 0xff] @ sin_addr addr4))
       \<and> (length (sin6_addr a6) = 16 \<longrightarrow>
            get_in6_addr addr6 dst (Addrinfo_in6 a6 # ai_next) = (0, sin6_addr a6))"
proof (intro conjI impI)
  assume len4: "length (sin_addr addr4) = 4"
  show m: "sin6_addr (Ndb_make_ipv6_from_ipv4 addr6 addr4) =
      replicate 10 0 @ [0xff, 0xff] @ sin_addr addr4"
    by (rule make_ipv6_bytes [OF assms(1) len4])
  have "length (replicate 10 (0::byte) @ [0xff, 0xff] @ sin_addr addr4) = 16"
    by (simp add: len4)
  then show "get_in6_addr addr6 dst (Addrinfo_in addr4 # ai_next) =
      (0, replicate 10 0 @ [0xff, 0xff] @ sin_addr addr4)"
    by (simp only: get_in6_addr_def list.case addrinfo.case m memcpy_whole [OF assms(2)])
next
  assume "length (sin6_addr a6) = 16"
  then show "get_in6_addr addr6 dst (Addrinfo_in6 a6 # ai_next) = (0, sin6_addr a6)"
    by (simp add: get_in6_addr_def memcpy_whole [OF assms(2)])
qed

theorem internal_address_bytes_witness:
  "get_in6_addr \<lparr>sin6_family = AF_UNSPEC, sin6_addr = replicate 16 0xaa, sin6_scope_id = 7\<rparr>
      (replicate 16 0x55)
      [Addrinfo_in \<lparr>sin_family = AF_INET, sin_addr = [127, 0, 0, 1]\<rparr>] =
     (0, [0, 0, 0, 0, 0, 0, 0, 0, 0, 0, 0xff, 0xff, 127, 0, 0, 1])
   \<and> get_in6_addr \<lparr>sin6_family = AF_UNSPEC, sin6_addr = replicate 16 0xaa, sin6_scope_id = 7\<rparr>
      (replicate 16 0x55)
      [Addrinfo_in6 \<lparr>sin6_family = AF_INET6,
         sin6_addr = [0xfe, 0x80, 0, 0, 0, 0, 0, 0, 0, 0, 0, 0, 0, 0, 0, 1], sin6_scope_id = 0\<rparr>] =
     (0, [0xfe, 0x80, 0, 0, 0, 0, 0, 0, 0, 0, 0, 0, 0, 0, 0, 1])"
  using internal_address_bytes
    [of "\<lparr>sin6_family = AF_UNSPEC, sin6_addr = replicate 16 0xaa, sin6_scope_id = 7\<rparr>"
        "replicate 16 0x55"
        "\<lparr>sin_family = AF_INET, sin_addr = [127, 0, 0, 1]\<rparr>" "[]"
        "\<lparr>sin6_family = AF_INET6,
           sin6_addr = [0xfe, 0x80, 0, 0, 0, 0, 0, 0, 0, 0, 0, 0, 0, 0, 0, 1], sin6_scope_id = 0\<rparr>"]
  by (simp add: numeral_eq_Suc)

subsection \<open>C strings and buffers\<close>

lemma takeWhile_drop_le:
  "p \<le> length (takeWhile P xs) \<Longrightarrow> takeWhile P (drop p xs) = drop p (takeWhile P xs)"
proof (induction xs arbitrary: p)
  case Nil
  then show ?case by simp
next
  case (Cons x xs)
  then show ?case by (cases p) (auto split: if_splits)
qed

lemma c_str_drop: "p \<le> length (c_str m 0) \<Longrightarrow> c_str m p = drop p (c_str m 0)"
  by (simp add: c_str_def takeWhile_drop_le)

lemma NUL_notin_c_str: "NUL \<notin> set (c_str m p)"
  by (auto simp: c_str_def dest: set_takeWhileD)

lemma rd_in: "p < length (c_str m 0) \<Longrightarrow> rd m p = c_str m 0 ! p"
proof -
  assume a: "p < length (c_str m 0)"
  have "length (c_str m 0) \<le> length m"
    by (simp add: c_str_def length_takeWhile_le)
  with a show ?thesis
    by (simp add: rd_def c_str_def takeWhile_nth)
qed

lemma rd_end: "rd m (length (c_str m 0)) = NUL"
  using nth_length_takeWhile [of "\<lambda>c. c \<noteq> NUL" m]
  by (auto simp: rd_def c_str_def)

lemma rd_0: "rd m 0 = (case c_str m 0 of [] \<Rightarrow> NUL | c # _ \<Rightarrow> c)"
proof (cases "c_str m 0")
  case Nil
  then show ?thesis using rd_end [of m] by simp
next
  case (Cons c t)
  then show ?thesis using rd_in [of 0 m] by simp
qed

lemma c_strlen_drop: "p \<le> length (c_str m 0) \<Longrightarrow> c_strlen m p = length (c_str m 0) - p"
  using c_str_drop [of p m] by (simp add: c_strlen_def)

lemma c_strchr_drop:
  "p \<le> length (c_str m 0) \<Longrightarrow>
     c_strchr m p c =
       (if c \<in> set (drop p (c_str m 0))
        then Some (p + length (takeWhile (\<lambda>x. x \<noteq> c) (drop p (c_str m 0)))) else None)"
  using c_str_drop [of p m] by (simp add: c_strchr_def)

lemma c_str_prefix:
  assumes "NUL \<notin> set t" and "length t < length b" and "take (length t) b = t"
    and "b ! length t = NUL"
  shows "c_str b 0 = t"
proof -
  have "b = take (length t) b @ b ! length t # drop (Suc (length t)) b"
    by (rule id_take_nth_drop [OF assms(2)])
  then have b: "b = t @ NUL # drop (Suc (length t)) b"
    using assms(3,4) by simp
  have "takeWhile (\<lambda>c. c \<noteq> NUL) (t @ NUL # drop (Suc (length t)) b) = t"
    using assms(1) by (auto simp: takeWhile_tail)
  with b show ?thesis by (simp add: c_str_def)
qed

lemma c_str_strncpy_fit:
  assumes "NUL \<notin> set t" and "length t < n" and "n \<le> length dst"
  shows "c_str (c_strncpy dst t n) 0 = t"
proof (rule c_str_prefix [OF assms(1)])
  show "length t < length (c_strncpy dst t n)"
    using assms by (simp add: c_strncpy_def store_def)
  show "take (length t) (c_strncpy dst t n) = t"
    using assms by (simp add: c_strncpy_def store_def)
  show "c_strncpy dst t n ! length t = NUL"
    using assms by (simp add: c_strncpy_def store_def nth_append)
qed

lemma c_str_strncpy_cut:
  assumes "NUL \<notin> set t" and "k \<le> length t" and "k < length dst"
  shows "c_str ((c_strncpy dst t k)[k := NUL]) 0 = take k t"
proof (rule c_str_prefix)
  show "NUL \<notin> set (take k t)"
    using assms(1) by (auto dest: in_set_takeD)
  show "length (take k t) < length ((c_strncpy dst t k)[k := NUL])"
    using assms by (simp add: c_strncpy_def store_def)
  show "take (length (take k t)) ((c_strncpy dst t k)[k := NUL]) = take k t"
    using assms by (simp add: c_strncpy_def store_def min_absorb2)
  show "(c_strncpy dst t k)[k := NUL] ! length (take k t) = NUL"
    using assms by (simp add: c_strncpy_def store_def min_absorb2)
qed

lemma c_str_strncpy_last:
  assumes "NUL \<notin> set t" and "length t < n" and "n \<le> length dst"
  shows "c_str ((c_strncpy dst t n)[n - 1 := NUL]) 0 = t"
proof (rule c_str_prefix [OF assms(1)])
  show "length t < length ((c_strncpy dst t n)[n - 1 := NUL])"
    using assms by (simp add: c_strncpy_def store_def)
  show "take (length t) ((c_strncpy dst t n)[n - 1 := NUL]) = t"
    using assms by (simp add: c_strncpy_def store_def)
  show "(c_strncpy dst t n)[n - 1 := NUL] ! length t = NUL"
    using assms by (simp add: c_strncpy_def store_def nth_append nth_list_update)
qed

lemma c_str_update_0: "0 < length b \<Longrightarrow> c_str (b[0 := NUL]) 0 = []"
  by (cases b) (simp_all add: c_str_def)

subsection \<open>The endpoint string codec: what each branch returns\<close>

lemma count_list_one:
  "count_list s c = 1 \<longleftrightarrow> c \<in> set s \<and> c \<notin> set (tl (dropWhile (\<lambda>x. x \<noteq> c) s))"
  by (induction s) (auto simp: count_list_0_iff)

lemma tl_dropWhile_drop:
  "tl (dropWhile P s) = drop (Suc (length (takeWhile P s))) s"
  by (simp add: dropWhile_eq_drop drop_Suc tl_drop)

lemma takeWhile_lt_length: "c \<in> set s \<Longrightarrow> length (takeWhile (\<lambda>x. x \<noteq> c) s) < length s"
  by (induction s) auto

lemma split_plain:
  assumes "rd arg 0 \<noteq> CHR ''[''"
    and s_def: "s = c_str arg 0"
    and pc_def: "pc = length (takeWhile (\<lambda>x. x \<noteq> CHR '':'') s)"
  shows "Ndb_split_string_address_port arg host hostlen serv servlen =
    (if count_list s CHR '':'' = 1 then
       if pc \<ge> hostlen \<or> length s - Suc pc \<ge> servlen then (- 1, host, serv)
       else (0, (c_strncpy host s pc)[pc := NUL],
                (c_strncpy serv (drop (Suc pc) s) servlen)[servlen - 1 := NUL])
     else if length s \<ge> hostlen then (- 1, host, serv)
     else (0, (c_strncpy host s hostlen)[hostlen - 1 := NUL], serv[0 := NUL]))"
proof -
  have first: "c_strchr arg 0 CHR '':'' = (if CHR '':'' \<in> set s then Some pc else None)"
    by (simp add: c_strchr_def s_def pc_def)
  have len0: "c_strlen arg 0 = length s"
    by (simp add: c_strlen_def s_def)
  show ?thesis
  proof (cases "CHR '':'' \<in> set s")
    case False
    then have "count_list s CHR '':'' \<noteq> 1"
      using count_list_one [of s "CHR '':''"] by simp
    with False show ?thesis
      using assms(1)
      by (simp add: Ndb_split_string_address_port_def first len0 Let_def flip: s_def)
  next
    case True
    then have pc: "Suc pc \<le> length s"
      using takeWhile_lt_length [of "CHR '':''" s] by (simp add: pc_def)
    then have rest: "c_str arg (Suc pc) = drop (Suc pc) s"
      and rlen: "c_strlen arg (Suc pc) = length s - Suc pc"
      and second: "c_strchr arg (Suc pc) CHR '':'' = None \<longleftrightarrow> CHR '':'' \<notin> set (drop (Suc pc) s)"
      using c_str_drop [of "Suc pc" arg] c_strlen_drop [of "Suc pc" arg]
        c_strchr_drop [of "Suc pc" arg "CHR '':''"]
      by (simp_all add: s_def)
    have cnt: "count_list s CHR '':'' = 1 \<longleftrightarrow> CHR '':'' \<notin> set (drop (Suc pc) s)"
      using True count_list_one [of s "CHR '':''"] by (simp add: tl_dropWhile_drop pc_def)
    show ?thesis
    proof (cases "CHR '':'' \<in> set (drop (Suc pc) s)")
      case again: True
      then have "count_list s CHR '':'' \<noteq> 1"
        using cnt by blast
      with again show ?thesis
        using assms(1) True
        by (simp add: Ndb_split_string_address_port_def first len0 rest rlen second Let_def
            flip: s_def pc_def)
    next
      case single: False
      then have "count_list s CHR '':'' = 1"
        using cnt by blast
      with single show ?thesis
        using assms(1) True
        by (simp add: Ndb_split_string_address_port_def first len0 rest rlen second Let_def
            flip: s_def pc_def)
    qed
  qed
qed

lemma colon_in_bracketed:
  "b \<in> set t \<Longrightarrow> b \<noteq> c \<Longrightarrow>
     c \<in> set (takeWhile (\<lambda>x. x \<noteq> b) t) \<longleftrightarrow>
       c \<in> set t \<and> length (takeWhile (\<lambda>x. x \<noteq> c) t) < Suc (length (takeWhile (\<lambda>x. x \<noteq> b) t))"
  by (induction t) auto

lemma split_bracket:
  assumes "c_str arg 0 = CHR ''['' # t"
  shows "Ndb_split_string_address_port arg host hostlen serv servlen =
     (if CHR '']'' \<notin> set t then (- 1, host, serv)
      else let h = takeWhile (\<lambda>x. x \<noteq> CHR '']'') t in
        case drop (Suc (length h)) t of
          [] \<Rightarrow>
            if length h \<ge> hostlen \<or> c_strlen arg (length h + 3) \<ge> servlen \<or> CHR '':'' \<notin> set h
            then (- 1, host, serv)
            else (0, (c_strncpy host t (length h))[length h := NUL], serv[0 := NUL])
        | d # sv \<Rightarrow>
            if d \<noteq> CHR '':'' \<or> length h \<ge> hostlen \<or> length sv \<ge> servlen \<or> CHR '':'' \<notin> set h
            then (- 1, host, serv)
            else (0, (c_strncpy host t (length h))[length h := NUL], c_strncpy serv sv servlen))"
proof -
  define h where "h = takeWhile (\<lambda>x. x \<noteq> CHR '']'') t"
  define n where "n = length h"
  have open_br: "rd arg 0 = CHR ''[''"
    by (simp add: rd_0 assms)
  have close_br: "c_strchr arg 0 CHR '']'' = (if CHR '']'' \<in> set t then Some (Suc n) else None)"
    by (simp add: c_strchr_def assms h_def n_def)
  have nul_colon: "NUL \<noteq> CHR '':''" "CHR '':'' \<noteq> NUL"
    by (simp_all add: NUL_def)
  have three: "n + 3 = Suc (Suc (Suc n))"
    by simp
  show ?thesis
  proof (cases "CHR '']'' \<in> set t")
    case False
    then show ?thesis
      by (simp add: Ndb_split_string_address_port_def open_br close_br)
  next
    case True
    then have n: "n < length t"
      using takeWhile_lt_length [of "CHR '']''" t] by (simp add: n_def h_def)
    have tail: "c_str arg (Suc 0) = t"
      using c_str_drop [of "Suc 0" arg] by (simp add: assms)
    have colon: "c_strchr arg (Suc 0) CHR '':'' =
        (if CHR '':'' \<in> set t then Some (Suc (length (takeWhile (\<lambda>x. x \<noteq> CHR '':'') t))) else None)"
      by (simp add: c_strchr_def tail)
    have inside: "CHR '':'' \<in> set h \<longleftrightarrow>
        CHR '':'' \<in> set t \<and> length (takeWhile (\<lambda>x. x \<noteq> CHR '':'') t) < Suc n"
      unfolding h_def n_def by (rule colon_in_bracketed [OF True]) simp
    show ?thesis
    proof (cases "drop (Suc n) t")
      case Nil
      with n have len: "length t = Suc n" by simp
      have "rd arg (Suc (Suc n)) = NUL"
        using rd_end [of arg] by (simp add: assms len)
      with True Nil show ?thesis
        by (auto simp add: Ndb_split_string_address_port_def open_br close_br colon inside
            Let_def tail nul_colon three simp flip: h_def n_def)
    next
      case (Cons d sv)
      then have len: "Suc (Suc n) < length (c_str arg 0)"
        by (cases "Suc n < length t") (simp_all add: assms)
      have "t ! Suc n = d"
        using Cons by (metis nth_via_drop)
      then have at: "rd arg (Suc (Suc n)) = d"
        using rd_in [OF len] by (simp add: assms)
      have "d \<in> set (c_str arg 0)"
        using Cons by (metis assms in_set_dropD list.set_intros(1) list.set_intros(2))
      then have dn: "d \<noteq> NUL"
        using NUL_notin_c_str [of arg 0] by auto
      have sv: "c_str arg (Suc (Suc (Suc n))) = sv"
        using c_str_drop [of "Suc (Suc (Suc n))" arg] len Cons
        by (simp add: assms drop_Suc tl_drop) (metis drop_Suc list.sel(3) tl_drop)
      then have svlen: "c_strlen arg (Suc (Suc (Suc n))) = length sv"
        by (simp add: c_strlen_def)
      from True Cons show ?thesis
        by (auto simp add: Ndb_split_string_address_port_def open_br close_br colon inside
            Let_def tail at dn sv svlen nul_colon three simp flip: h_def n_def)
    qed
  qed
qed

text \<open>
  A bracketed input that ends at its closing bracket, with a colon in the host and the
  host fitting: the return code is decided by the length of what lies in memory at
  offset \<open>length h + 3\<close>, one byte behind the terminator of the input.
\<close>

lemma split_bracket_end_result:
  assumes s: "c_str arg 0 = CHR ''['' # h @ '']''"
    and h: "CHR '']'' \<notin> set h" "CHR '':'' \<in> set h" "length h < hostlen"
  shows "c_strlen arg 0 = length h + 2"
    and "fst (Ndb_split_string_address_port arg host hostlen serv servlen) =
      (if c_strlen arg (length h + 3) \<ge> servlen then - 1 else 0)"
proof -
  show "c_strlen arg 0 = length h + 2"
    by (simp add: c_strlen_def s)
  have st: "c_str arg 0 = CHR ''['' # (h @ '']'')"
    by (simp add: s)
  have tw: "takeWhile (\<lambda>x. x \<noteq> CHR '']'') (h @ '']'') = h"
    using h(1) by (auto simp: takeWhile_tail)
  show "fst (Ndb_split_string_address_port arg host hostlen serv servlen) =
      (if c_strlen arg (length h + 3) \<ge> servlen then - 1 else 0)"
    using h by (simp add: split_bracket [OF st] tw)
qed

lemma split_returns:
  "Ndb_split_string_address_port arg host hostlen serv servlen = (- 1, host, serv)
     \<or> fst (Ndb_split_string_address_port arg host hostlen serv servlen) = 0"
  by (simp add: Ndb_split_string_address_port_def Let_def split: option.split)

lemma split_failure_keeps_buffers:
  "fst (Ndb_split_string_address_port arg host hostlen serv servlen) \<noteq> 0 \<Longrightarrow>
     Ndb_split_string_address_port arg host hostlen serv servlen = (- 1, host, serv)"
  using split_returns [of arg host hostlen serv servlen] by blast

lemma getInAddr6_failure_keeps_dst:
  "fst (Ndb_getInAddr6 getaddrinfo addr6 dst address) \<noteq> 0 \<Longrightarrow>
     Ndb_getInAddr6 getaddrinfo addr6 dst address = (- 1, dst)"
  by (simp add: Ndb_getInAddr6_def get_in6_addr_def Let_def
      split: prod.splits list.splits addrinfo.splits if_splits)

lemma split_unfit_fails:
  assumes spec: "spec_split (c_str arg 0) = Some (h, sv)"
    and unfit: "length h \<ge> hostlen \<or>
      (length sv \<ge> servlen \<and>
        (0 < servlen \<or> rd arg 0 = CHR ''['' \<or> count_list (c_str arg 0) CHR '':'' = 1))"
  shows "fst (Ndb_split_string_address_port arg host hostlen serv servlen) = - 1"
proof (cases "rd arg 0 = CHR ''[''")
  case True
  then obtain t where s: "c_str arg 0 = CHR ''['' # t"
    by (cases "c_str arg 0") (auto simp: rd_0 NUL_def)
  from spec have br: "CHR '']'' \<in> set t"
    by (auto simp: spec_split_def s split: if_splits)
  define h' where "h' = takeWhile (\<lambda>x. x \<noteq> CHR '']'') t"
  from spec br have col: "CHR '':'' \<in> set h'"
    by (auto simp: spec_split_def s Let_def h'_def split: if_splits)
  have after: "tl (dropWhile (\<lambda>x. x \<noteq> CHR '']'') t) = drop (Suc (length h')) t"
    by (simp add: tl_dropWhile_drop h'_def)
  show ?thesis
  proof (cases "drop (Suc (length h')) t")
    case Nil
    with spec br col have "h = h'" "sv = []"
      by (simp_all add: spec_split_def s Let_def after flip: h'_def)
    with unfit True have "length h' \<ge> hostlen \<or> servlen = 0"
      by auto
    with br Nil show ?thesis
      by (auto simp: split_bracket [OF s] Let_def simp flip: h'_def)
  next
    case (Cons d r)
    with spec br col have "d = CHR '':''" "h = h'" "sv = r"
      by (simp_all add: spec_split_def s Let_def after flip: h'_def split: if_splits)
    with unfit True have "length h' \<ge> hostlen \<or> length r \<ge> servlen"
      by auto
    with br Cons show ?thesis
      by (auto simp: split_bracket [OF s] Let_def simp flip: h'_def)
  qed
next
  case False
  define s where "s = c_str arg 0"
  define pc where "pc = length (takeWhile (\<lambda>x. x \<noteq> CHR '':'') s)"
  have hd: "\<And>c t. s = c # t \<Longrightarrow> c \<noteq> CHR ''[''"
    using False by (simp add: rd_0 s_def)
  have spec': "spec_split s =
      (if count_list s CHR '':'' = 1
       then Some (takeWhile (\<lambda>x. x \<noteq> CHR '':'') s, tl (dropWhile (\<lambda>x. x \<noteq> CHR '':'') s))
       else Some (s, []))"
    using hd by (cases s) (simp_all add: spec_split_def)
  show ?thesis
  proof (cases "count_list s CHR '':'' = 1")
    case True
    with spec spec' have "length h = pc" "length sv = length s - Suc pc"
      by (auto simp: tl_dropWhile_drop s_def [symmetric] pc_def)
    with unfit True show ?thesis
      by (auto simp: split_plain [OF False s_def pc_def])
  next
    case other: False
    with spec spec' have "h = s" "sv = []"
      by (auto simp: s_def [symmetric])
    with unfit other False have "length s \<ge> hostlen"
      by (auto simp: s_def [symmetric])
    with other show ?thesis
      by (simp add: split_plain [OF False s_def pc_def])
  qed
qed

subsection \<open>The endpoint string codec: claims\<close>

lemma split_one_colon_ok:
  assumes nb: "rd arg 0 \<noteq> CHR ''[''"
    and caph: "hostlen \<le> length host" and caps: "servlen \<le> length serv"
    and one: "count_list (c_str arg 0) CHR '':'' = 1"
    and fith: "length (takeWhile (\<lambda>x. x \<noteq> CHR '':'') (c_str arg 0)) < hostlen"
    and fits: "length (tl (dropWhile (\<lambda>x. x \<noteq> CHR '':'') (c_str arg 0))) < servlen"
  shows "\<exists>host' serv'.
         Ndb_split_string_address_port arg host hostlen serv servlen = (0, host', serv')
         \<and> c_str host' 0 = takeWhile (\<lambda>x. x \<noteq> CHR '':'') (c_str arg 0)
         \<and> c_str serv' 0 = tl (dropWhile (\<lambda>x. x \<noteq> CHR '':'') (c_str arg 0))"
proof -
  define s where "s = c_str arg 0"
  define pc where "pc = length (takeWhile (\<lambda>x. x \<noteq> CHR '':'') s)"
  have nul: "NUL \<notin> set s"
    by (simp add: s_def NUL_notin_c_str)
  have sv: "tl (dropWhile (\<lambda>x. x \<noteq> CHR '':'') s) = drop (Suc pc) s"
    by (simp add: tl_dropWhile_drop pc_def)
  from one fith fits have one': "count_list s CHR '':'' = 1" and fit_h: "pc < hostlen"
    and fit_s: "length (drop (Suc pc) s) < servlen"
    by (simp_all add: s_def [symmetric] pc_def [symmetric] sv)
  from one' have "CHR '':'' \<in> set s"
    using count_list_one [of s "CHR '':''"] by simp
  then have "pc < length s"
    using takeWhile_lt_length [of "CHR '':''" s] by (simp add: pc_def)
  then have le: "pc \<le> length s" by simp
  have res: "Ndb_split_string_address_port arg host hostlen serv servlen =
      (0, (c_strncpy host s pc)[pc := NUL],
          (c_strncpy serv (drop (Suc pc) s) servlen)[servlen - 1 := NUL])"
    using one' fit_h fit_s
    by (simp add: split_plain [OF nb s_def pc_def])
  have "take pc s = takeWhile (\<lambda>x. x \<noteq> CHR '':'') s"
    unfolding pc_def by (rule takeWhile_eq_take [symmetric])
  then have h: "c_str ((c_strncpy host s pc)[pc := NUL]) 0 = takeWhile (\<lambda>x. x \<noteq> CHR '':'') s"
    using c_str_strncpy_cut [OF nul le, of host] fit_h caph
    by simp
  have "NUL \<notin> set (drop (Suc pc) s)"
    using nul by (auto dest: in_set_dropD)
  then have v: "c_str ((c_strncpy serv (drop (Suc pc) s) servlen)[servlen - 1 := NUL]) 0 =
      drop (Suc pc) s"
    using fit_s caps by (rule c_str_strncpy_last)
  from res h v show ?thesis
    by (simp add: s_def [symmetric] sv)
qed

lemma split_whole_host_ok:
  assumes nb: "rd arg 0 \<noteq> CHR ''[''"
    and caph: "hostlen \<le> length host" and caps: "servlen \<le> length serv"
    and other: "count_list (c_str arg 0) CHR '':'' \<noteq> 1"
    and fith: "length (c_str arg 0) < hostlen" and fits: "0 < servlen"
  shows "\<exists>host' serv'.
         Ndb_split_string_address_port arg host hostlen serv servlen = (0, host', serv')
         \<and> c_str host' 0 = c_str arg 0 \<and> c_str serv' 0 = []"
proof -
  define s where "s = c_str arg 0"
  have nul: "NUL \<notin> set s"
    by (simp add: s_def NUL_notin_c_str)
  from other fith have other': "count_list s CHR '':'' \<noteq> 1" and fit_h: "length s < hostlen"
    by (simp_all add: s_def)
  from fits caps have cap: "0 < length serv"
    by linarith
  have res: "Ndb_split_string_address_port arg host hostlen serv servlen =
      (0, (c_strncpy host s hostlen)[hostlen - 1 := NUL], serv[0 := NUL])"
    using other' fit_h
    by (simp add: split_plain [OF nb s_def refl])
  have h: "c_str ((c_strncpy host s hostlen)[hostlen - 1 := NUL]) 0 = s"
    using nul fit_h caph by (rule c_str_strncpy_last)
  from res h c_str_update_0 [OF cap] show ?thesis
    by (simp add: s_def [symmetric])
qed

text \<open>
  C4. An input that does not start with \<^verbatim>\<open>[\<close>, into buffers of at least
  \<open>hostlen\<close> and \<open>servlen\<close> bytes. With exactly one colon, and the text before it
  shorter than \<open>hostlen\<close> and the text after it shorter than \<open>servlen\<close>, the call
  returns 0, the host buffer holds the text before the colon and the service buffer the
  text after it. With no colon or more than one, the input shorter than \<open>hostlen\<close>
  and \<open>servlen\<close> not 0, the call returns 0, the host buffer holds the whole input and
  the service buffer the empty string. The witness runs \<^verbatim>\<open>"127.0.0.1:1186"\<close>,
  \<^verbatim>\<open>"myhost"\<close> and \<^verbatim>\<open>"fe80::1"\<close>.
\<close>

theorem split_plain_host_service:
  assumes "rd arg 0 \<noteq> CHR ''[''" and "hostlen \<le> length host" and "servlen \<le> length serv"
  shows
    "(count_list (c_str arg 0) CHR '':'' = 1
        \<and> length (takeWhile (\<lambda>x. x \<noteq> CHR '':'') (c_str arg 0)) < hostlen
        \<and> length (tl (dropWhile (\<lambda>x. x \<noteq> CHR '':'') (c_str arg 0))) < servlen \<longrightarrow>
      (\<exists>host' serv'.
         Ndb_split_string_address_port arg host hostlen serv servlen = (0, host', serv')
         \<and> c_str host' 0 = takeWhile (\<lambda>x. x \<noteq> CHR '':'') (c_str arg 0)
         \<and> c_str serv' 0 = tl (dropWhile (\<lambda>x. x \<noteq> CHR '':'') (c_str arg 0))))
     \<and> (count_list (c_str arg 0) CHR '':'' \<noteq> 1
        \<and> length (c_str arg 0) < hostlen \<and> 0 < servlen \<longrightarrow>
      (\<exists>host' serv'.
         Ndb_split_string_address_port arg host hostlen serv servlen = (0, host', serv')
         \<and> c_str host' 0 = c_str arg 0 \<and> c_str serv' 0 = []))"
proof (intro conjI impI)
  assume "count_list (c_str arg 0) CHR '':'' = 1
      \<and> length (takeWhile (\<lambda>x. x \<noteq> CHR '':'') (c_str arg 0)) < hostlen
      \<and> length (tl (dropWhile (\<lambda>x. x \<noteq> CHR '':'') (c_str arg 0))) < servlen"
  then have one: "count_list (c_str arg 0) CHR '':'' = 1"
    and fith: "length (takeWhile (\<lambda>x. x \<noteq> CHR '':'') (c_str arg 0)) < hostlen"
    and fits: "length (tl (dropWhile (\<lambda>x. x \<noteq> CHR '':'') (c_str arg 0))) < servlen"
    by blast+
  show "\<exists>host' serv'.
      Ndb_split_string_address_port arg host hostlen serv servlen = (0, host', serv')
      \<and> c_str host' 0 = takeWhile (\<lambda>x. x \<noteq> CHR '':'') (c_str arg 0)
      \<and> c_str serv' 0 = tl (dropWhile (\<lambda>x. x \<noteq> CHR '':'') (c_str arg 0))"
    by (rule split_one_colon_ok [OF assms one fith fits])
next
  assume "count_list (c_str arg 0) CHR '':'' \<noteq> 1
      \<and> length (c_str arg 0) < hostlen \<and> 0 < servlen"
  then have other: "count_list (c_str arg 0) CHR '':'' \<noteq> 1"
    and fith: "length (c_str arg 0) < hostlen" and fits: "0 < servlen"
    by blast+
  show "\<exists>host' serv'.
      Ndb_split_string_address_port arg host hostlen serv servlen = (0, host', serv')
      \<and> c_str host' 0 = c_str arg 0 \<and> c_str serv' 0 = []"
    by (rule split_whole_host_ok [OF assms other fith fits])
qed

theorem split_plain_host_service_witness:
  "(\<exists>host' serv'.
      Ndb_split_string_address_port ''127.0.0.1:1186''
        (replicate 16 CHR ''x'') 16 (replicate 8 CHR ''y'') 8 = (0, host', serv')
      \<and> c_str host' 0 = ''127.0.0.1'' \<and> c_str serv' 0 = ''1186'')
   \<and> (\<exists>host' serv'.
      Ndb_split_string_address_port ''myhost''
        (replicate 16 CHR ''x'') 16 (replicate 8 CHR ''y'') 8 = (0, host', serv')
      \<and> c_str host' 0 = ''myhost'' \<and> c_str serv' 0 = [])
   \<and> (\<exists>host' serv'.
      Ndb_split_string_address_port ''fe80::1''
        (replicate 16 CHR ''x'') 16 (replicate 8 CHR ''y'') 8 = (0, host', serv')
      \<and> c_str host' 0 = ''fe80::1'' \<and> c_str serv' 0 = [])"
  using split_plain_host_service
      [of "''127.0.0.1:1186''" 16 "replicate 16 CHR ''x''" 8 "replicate 8 CHR ''y''"]
    split_plain_host_service
      [of "''myhost''" 16 "replicate 16 CHR ''x''" 8 "replicate 8 CHR ''y''"]
    split_plain_host_service
      [of "''fe80::1''" 16 "replicate 16 CHR ''x''" 8 "replicate 8 CHR ''y''"]
  by (simp add: rd_def c_str_def NUL_def)

text \<open>
  The input \<^verbatim>\<open>"myhost"\<close> with a service buffer of capacity 0: the service of the
  input is the empty string, which a buffer of no bytes cannot hold, and the call
  returns 0. Lines 285-290 check \<open>hostlen\<close> only.
\<close>

theorem split_unchecked_zero_servlen:
  "spec_split (c_str ''myhost'' 0) = Some (''myhost'', [])
   \<and> length ([] :: string) \<ge> (0 :: nat)
   \<and> fst (Ndb_split_string_address_port ''myhost'' (replicate 16 CHR ''x'') 16 [] 0) = 0"
  by (simp add: spec_split_def c_str_def NUL_def Ndb_split_string_address_port_def rd_def
      c_strchr_def c_strlen_def)

text \<open>
  C2, with the one unchecked case set apart. If the host of the input does not fit
  (its length is at least \<open>hostlen\<close>), or its service does not fit (its length is at
  least \<open>servlen\<close>) and either \<open>servlen\<close> is not 0 or the input is bracketed or has
  exactly one colon,
  \<^verbatim>\<open>Ndb_split_string_address_port\<close> returns -1. Whenever it does not return 0, it
  returns -1 and both buffers are as they were; whenever \<^verbatim>\<open>Ndb_getInAddr6\<close> does not
  return 0, it returns -1 and the destination is as it was.
\<close>

theorem split_failure_no_partial_output:
  "(spec_split (c_str arg 0) = Some (h, sv)
      \<and> (length h \<ge> hostlen
          \<or> (length sv \<ge> servlen
              \<and> (0 < servlen \<or> rd arg 0 = CHR ''['' \<or> count_list (c_str arg 0) CHR '':'' = 1)))
      \<longrightarrow> fst (Ndb_split_string_address_port arg host hostlen serv servlen) = - 1)
   \<and> (fst (Ndb_split_string_address_port arg host hostlen serv servlen) \<noteq> 0
      \<longrightarrow> Ndb_split_string_address_port arg host hostlen serv servlen = (- 1, host, serv))
   \<and> (fst (Ndb_getInAddr6 getaddrinfo addr6 dst address) \<noteq> 0
      \<longrightarrow> Ndb_getInAddr6 getaddrinfo addr6 dst address = (- 1, dst))"
  using split_unfit_fails [of arg h sv hostlen servlen host serv]
    split_failure_keeps_buffers [of arg host hostlen serv servlen]
    getInAddr6_failure_keeps_dst [of getaddrinfo addr6 dst address]
  by blast

theorem split_failure_no_partial_output_witness:
  "spec_split (c_str ''verylonghostname:1186'' 0) = Some (''verylonghostname'', ''1186'')
   \<and> length ''verylonghostname'' \<ge> (8 :: nat)
   \<and> Ndb_split_string_address_port ''verylonghostname:1186''
        (replicate 8 CHR ''x'') 8 (replicate 8 CHR ''y'') 8 =
      (- 1, replicate 8 CHR ''x'', replicate 8 CHR ''y'')
   \<and> Ndb_getInAddr6 (\<lambda>name. (- 2, []))
        \<lparr>sin6_family = AF_UNSPEC, sin6_addr = replicate 16 0, sin6_scope_id = 0\<rparr>
        (replicate 16 0x55) ''unknown_?host'' = (- 1, replicate 16 0x55)"
proof -
  have spec: "spec_split (c_str ''verylonghostname:1186'' 0) = Some (''verylonghostname'', ''1186'')"
    by (simp add: spec_split_def c_str_def NUL_def)
  have len: "length ''verylonghostname'' \<ge> (8 :: nat)"
    by simp
  have rc: "fst (Ndb_getInAddr6 (\<lambda>name. (- 2, []))
        \<lparr>sin6_family = AF_UNSPEC, sin6_addr = replicate 16 0, sin6_scope_id = 0\<rparr>
        (replicate 16 0x55) ''unknown_?host'') \<noteq> 0"
    by (simp add: Ndb_getInAddr6_def)
  note inst = split_failure_no_partial_output
      [of "''verylonghostname:1186''" "''verylonghostname''" "''1186''" 8 8
          "replicate 8 CHR ''x''" "replicate 8 CHR ''y''"
          "\<lambda>name. (- 2, [])"
          "\<lparr>sin6_family = AF_UNSPEC, sin6_addr = replicate 16 0, sin6_scope_id = 0\<rparr>"
          "replicate 16 0x55" "''unknown_?host''"]
  from inst spec len have "fst (Ndb_split_string_address_port ''verylonghostname:1186''
        (replicate 8 CHR ''x'') 8 (replicate 8 CHR ''y'') 8) = - 1"
    by blast
  with inst have "Ndb_split_string_address_port ''verylonghostname:1186''
        (replicate 8 CHR ''x'') 8 (replicate 8 CHR ''y'') 8 =
      (- 1, replicate 8 CHR ''x'', replicate 8 CHR ''y'')"
    by simp
  moreover from inst rc have "Ndb_getInAddr6 (\<lambda>name. (- 2, []))
        \<lparr>sin6_family = AF_UNSPEC, sin6_addr = replicate 16 0, sin6_scope_id = 0\<rparr>
        (replicate 16 0x55) ''unknown_?host'' = (- 1, replicate 16 0x55)"
    by blast
  ultimately show ?thesis
    using spec len by blast
qed

text \<open>
  C3. The input \<^verbatim>\<open>"[::1]"\<close>, stored in memory in front of the bytes
  \<^verbatim>\<open>AAAAAAAA\<close>, with a host buffer of 16 and a service buffer of 5 bytes. The input
  has its closing bracket, a colon between the brackets and the end of the string behind
  the bracket; its host \<^verbatim>\<open>"::1"\<close> and its empty service fit. The call returns -1:
  line 250 takes \<^verbatim>\<open>strlen(port_colon + 1)\<close> with \<^verbatim>\<open>port_colon\<close> at the
  terminator, so it measures the eight bytes behind the input.
\<close>

theorem split_bracket_end_fails_on_trailing_bytes:
  "c_str (''[::1]'' @ [NUL] @ ''AAAAAAAA'') 0 = ''[::1]''
   \<and> spec_split ''[::1]'' = Some (''::1'', [])
   \<and> Ndb_split_string_address_port (''[::1]'' @ [NUL] @ ''AAAAAAAA'')
        (replicate 16 CHR ''x'') 16 (replicate 5 CHR ''y'') 5 =
      (- 1, replicate 16 CHR ''x'', replicate 5 CHR ''y'')"
  by (simp add: spec_split_def c_str_def NUL_def Ndb_split_string_address_port_def rd_def
      c_strchr_def c_strlen_def)

text \<open>
  C10. Two memories that hold the same input \<^verbatim>\<open>"[2001:db8::7]"\<close>, terminator at
  offset 13, and differ only behind the terminator. With the same buffers the call
  returns 0 on one and -1 on the other: the function has read behind the terminator of
  its input (line 250, \<^verbatim>\<open>strlen(port_colon + 1)\<close> when \<^verbatim>\<open>*port_colon\<close> is the
  terminator).
\<close>

theorem split_result_depends_on_bytes_past_terminator:
  "c_str (''[2001:db8::7]'' @ [NUL] @ ''secret'') 0 = c_str (''[2001:db8::7]'' @ [NUL]) 0
   \<and> c_strlen (''[2001:db8::7]'' @ [NUL] @ ''secret'') 0 = 13
   \<and> fst (Ndb_split_string_address_port (''[2001:db8::7]'' @ [NUL])
        (replicate 16 CHR ''x'') 16 (replicate 6 CHR ''y'') 6) = 0
   \<and> fst (Ndb_split_string_address_port (''[2001:db8::7]'' @ [NUL] @ ''secret'')
        (replicate 16 CHR ''x'') 16 (replicate 6 CHR ''y'') 6) = - 1"
  by (simp add: c_str_def NUL_def Ndb_split_string_address_port_def rd_def
      c_strchr_def c_strlen_def c_strncpy_def store_def)

subsection \<open>The endpoint string codec: combining\<close>

lemma split_bracket_colon_ok:
  assumes s: "c_str arg 0 = CHR ''['' # h @ CHR '']'' # CHR '':'' # sv"
    and h: "CHR '']'' \<notin> set h" "CHR '':'' \<in> set h"
    and caph: "length h < hostlen" "hostlen \<le> length host"
    and caps: "length sv < servlen" "servlen \<le> length serv"
  shows "\<exists>host' serv'.
         Ndb_split_string_address_port arg host hostlen serv servlen = (0, host', serv')
         \<and> c_str host' 0 = h \<and> c_str serv' 0 = sv"
proof -
  define t where "t = h @ CHR '']'' # CHR '':'' # sv"
  have tw: "takeWhile (\<lambda>x. x \<noteq> CHR '']'') t = h"
    using h(1) by (auto simp: t_def takeWhile_tail)
  have nul: "NUL \<notin> set t"
    using NUL_notin_c_str [of arg 0] by (simp add: s t_def)
  then have nulsv: "NUL \<notin> set sv"
    by (simp add: t_def)
  have st: "c_str arg 0 = CHR ''['' # t"
    by (simp add: s t_def)
  have br: "CHR '']'' \<in> set t" and dr: "drop (Suc (length h)) t = CHR '':'' # sv"
    by (simp_all add: t_def)
  have res: "Ndb_split_string_address_port arg host hostlen serv servlen =
      (0, (c_strncpy host t (length h))[length h := NUL], c_strncpy serv sv servlen)"
    using h caph caps by (simp add: split_bracket [OF st] tw br dr)
  have "c_str ((c_strncpy host t (length h))[length h := NUL]) 0 = take (length h) t"
    using nul caph by (intro c_str_strncpy_cut) (simp_all add: t_def)
  then have host': "c_str ((c_strncpy host t (length h))[length h := NUL]) 0 = h"
    by (simp add: t_def)
  have serv': "c_str (c_strncpy serv sv servlen) 0 = sv"
    using nulsv caps by (rule c_str_strncpy_fit)
  from res host' serv' show ?thesis by simp
qed

text \<open>
  A bracketed input that ends at its closing bracket gives its host when the string
  that lies in memory one byte behind the terminator is shorter than \<open>servlen\<close>.
\<close>

lemma split_bracket_end_ok:
  assumes s: "c_str arg 0 = CHR ''['' # h @ '']''"
    and h: "CHR '']'' \<notin> set h" "CHR '':'' \<in> set h"
    and caph: "length h < hostlen" "hostlen \<le> length host"
    and caps: "c_strlen arg (length h + 3) < servlen" "servlen \<le> length serv"
  shows "\<exists>host' serv'.
         Ndb_split_string_address_port arg host hostlen serv servlen = (0, host', serv')
         \<and> c_str host' 0 = h \<and> c_str serv' 0 = []"
proof -
  define t where "t = h @ '']''"
  have st: "c_str arg 0 = CHR ''['' # t"
    by (simp add: s t_def)
  have tw: "takeWhile (\<lambda>x. x \<noteq> CHR '']'') t = h"
    using h(1) by (auto simp: t_def takeWhile_tail)
  have br: "CHR '']'' \<in> set t" and dr: "drop (Suc (length h)) t = []"
    by (simp_all add: t_def)
  have nul: "NUL \<notin> set t"
    using NUL_notin_c_str [of arg 0] by (simp add: st)
  have res: "Ndb_split_string_address_port arg host hostlen serv servlen =
      (0, (c_strncpy host t (length h))[length h := NUL], serv[0 := NUL])"
    using h caph caps by (simp add: split_bracket [OF st] tw br dr)
  have "c_str ((c_strncpy host t (length h))[length h := NUL]) 0 = take (length h) t"
    using nul caph by (intro c_str_strncpy_cut) (simp_all add: t_def)
  then have host': "c_str ((c_strncpy host t (length h))[length h := NUL]) 0 = h"
    by (simp add: t_def)
  from caps have "0 < length serv"
    by linarith
  then have serv': "c_str (serv[0 := NUL]) 0 = []"
    by (rule c_str_update_0)
  from res host' serv' show ?thesis by simp
qed

lemma digit_not_NUL: "n < 10 \<Longrightarrow> ''0123456789'' ! n \<noteq> NUL"
proof -
  assume "n < 10"
  then have "''0123456789'' ! n \<in> set ''0123456789''"
    by (intro nth_mem) simp
  then show ?thesis
    by (auto simp: NUL_def)
qed

lemma NUL_notin_decimal: "NUL \<notin> set (decimal n)"
proof (induction n rule: decimal.induct)
  case (1 n)
  show ?case
  proof (cases "n < 10")
    case True
    then show ?thesis
      using digit_not_NUL [of n] by (subst decimal.simps) simp
  next
    case False
    then show ?thesis
      using 1 digit_not_NUL [of "n mod 10"] by (subst decimal.simps) simp
  qed
qed

lemma c_str_snprintf:
  assumes "0 < bufsize" and "bufsize \<le> length buf" and "NUL \<notin> set s"
  shows "c_str (c_snprintf buf bufsize s) 0 = take (bufsize - 1) s"
proof (rule c_str_prefix)
  show "NUL \<notin> set (take (bufsize - 1) s)"
    using assms(3) by (auto dest: in_set_takeD)
  show "length (take (bufsize - 1) s) < length (c_snprintf buf bufsize s)"
    using assms by (simp add: c_snprintf_def store_def)
  show "take (length (take (bufsize - 1) s)) (c_snprintf buf bufsize s) = take (bufsize - 1) s"
    using assms by (cases "length s \<le> bufsize - 1") (simp_all add: c_snprintf_def store_def min_def)
  show "c_snprintf buf bufsize s ! length (take (bufsize - 1) s) = NUL"
    using assms by (simp add: c_snprintf_def store_def nth_append)
qed

lemma combine_text:
  assumes "0 < bufsize" and "bufsize \<le> length buf"
  shows "c_str (Ndb_combine_address_port buf bufsize host port) 0 =
     take (bufsize - 1)
       (case host of
          None \<Rightarrow> ''*:'' @ decimal (unat port)
        | Some h \<Rightarrow>
            if CHR '':'' \<in> set (c_str h 0) then ''['' @ c_str h 0 @ '']:'' @ decimal (unat port)
            else c_str h 0 @ '':'' @ decimal (unat port))"
proof -
  have nul: "CHR ''*'' \<noteq> NUL" "CHR '':'' \<noteq> NUL" "CHR ''['' \<noteq> NUL" "CHR '']'' \<noteq> NUL"
    by (simp_all add: NUL_def)
  show ?thesis
  proof (cases host)
    case None
    have "NUL \<notin> set (''*:'' @ decimal (unat port))"
      using nul NUL_notin_decimal [of "unat port"] by auto
    from c_str_snprintf [OF assms this] show ?thesis
      by (simp add: Ndb_combine_address_port_def None)
  next
    case (Some h)
    have a: "NUL \<notin> set (c_str h 0 @ '':'' @ decimal (unat port))"
      using nul NUL_notin_decimal [of "unat port"] NUL_notin_c_str [of h 0] by auto
    have b: "NUL \<notin> set (''['' @ c_str h 0 @ '']:'' @ decimal (unat port))"
      using nul NUL_notin_decimal [of "unat port"] NUL_notin_c_str [of h 0] by auto
    from c_str_snprintf [OF assms a] c_str_snprintf [OF assms b] show ?thesis
      by (simp add: Ndb_combine_address_port_def Some c_strchr_def)
  qed
qed

lemma decimal_1186: "decimal 1186 = ''1186''"
  by (simp add: decimal.simps)

text \<open>
  What the combining does, and the round trips that do not meet line 250. Into a
  buffer of \<open>bufsize\<close> bytes, \<open>bufsize\<close> not 0, \<^verbatim>\<open>Ndb_combine_address_port\<close> writes
  the first \<open>bufsize - 1\<close> characters of \<^verbatim>\<open>"*:<port>"\<close> when the host is absent, of
  \<^verbatim>\<open>"<host>:<port>"\<close> when the host has no colon, of \<^verbatim>\<open>"[<host>]:<port>"\<close> when it has
  one, and a terminator; it has no failure return. For \<^verbatim>\<open>"host:1186"\<close> and
  \<^verbatim>\<open>"[::1]:1186"\<close>, with buffers that hold the parts and the text, the split returns 0,
  its service is the decimal text of 1186, and combining its host with the port 1186
  gives the input back. For \<^verbatim>\<open>"host"\<close> the split returns 0 and its host is
  \<^verbatim>\<open>"host"\<close>.
\<close>



lemma combine_renders_and_round_trips:
  "(0 < bufsize \<and> bufsize \<le> length buf \<longrightarrow>
      c_str (Ndb_combine_address_port buf bufsize host port) 0 =
        take (bufsize - 1)
          (case host of
             None \<Rightarrow> ''*:'' @ decimal (unat port)
           | Some h \<Rightarrow>
               if CHR '':'' \<in> set (c_str h 0)
               then ''['' @ c_str h 0 @ '']:'' @ decimal (unat port)
               else c_str h 0 @ '':'' @ decimal (unat port)))
   \<and> (c_str arg 0 = ''host:1186''
        \<and> 4 < hostlen \<and> hostlen \<le> length hostbuf \<and> 4 < servlen \<and> servlen \<le> length servbuf
        \<and> 9 < bufsize \<and> bufsize \<le> length buf \<longrightarrow>
      (\<exists>host' serv'.
         Ndb_split_string_address_port arg hostbuf hostlen servbuf servlen = (0, host', serv')
         \<and> c_str serv' 0 = decimal (unat (1186 :: 16 word))
         \<and> c_str (Ndb_combine_address_port buf bufsize (Some host') 1186) 0 = ''host:1186''))
   \<and> (c_str arg 0 = ''[::1]:1186''
        \<and> 3 < hostlen \<and> hostlen \<le> length hostbuf \<and> 4 < servlen \<and> servlen \<le> length servbuf
        \<and> 10 < bufsize \<and> bufsize \<le> length buf \<longrightarrow>
      (\<exists>host' serv'.
         Ndb_split_string_address_port arg hostbuf hostlen servbuf servlen = (0, host', serv')
         \<and> c_str serv' 0 = decimal (unat (1186 :: 16 word))
         \<and> c_str (Ndb_combine_address_port buf bufsize (Some host') 1186) 0 = ''[::1]:1186''))
   \<and> (c_str arg 0 = ''host''
        \<and> 4 < hostlen \<and> hostlen \<le> length hostbuf \<and> 0 < servlen \<and> servlen \<le> length servbuf \<longrightarrow>
      (\<exists>host' serv'.
         Ndb_split_string_address_port arg hostbuf hostlen servbuf servlen = (0, host', serv')
         \<and> c_str host' 0 = ''host''))"
proof (intro conjI impI)
  assume "0 < bufsize \<and> bufsize \<le> length buf"
  then show "c_str (Ndb_combine_address_port buf bufsize host port) 0 =
        take (bufsize - 1)
          (case host of
             None \<Rightarrow> ''*:'' @ decimal (unat port)
           | Some h \<Rightarrow>
               if CHR '':'' \<in> set (c_str h 0)
               then ''['' @ c_str h 0 @ '']:'' @ decimal (unat port)
               else c_str h 0 @ '':'' @ decimal (unat port))"
    using combine_text [of bufsize buf host port] by blast
next
  assume a: "c_str arg 0 = ''host:1186''
        \<and> 4 < hostlen \<and> hostlen \<le> length hostbuf \<and> 4 < servlen \<and> servlen \<le> length servbuf
        \<and> 9 < bufsize \<and> bufsize \<le> length buf"
  then have s: "c_str arg 0 = ''host:1186''" by blast
  have "rd arg 0 \<noteq> CHR ''[''"
    by (simp add: rd_0 s)
  from split_one_colon_ok [OF this, of hostlen hostbuf servlen servbuf] a
  obtain host' serv' where
    res: "Ndb_split_string_address_port arg hostbuf hostlen servbuf servlen = (0, host', serv')"
    and h: "c_str host' 0 = ''host''" and v: "c_str serv' 0 = ''1186''"
    by (auto simp: s)
  have "c_str (Ndb_combine_address_port buf bufsize (Some host') 1186) 0 =
      take (bufsize - 1) ''host:1186''"
    using a by (simp add: combine_text h decimal_1186)
  also have "\<dots> = ''host:1186''"
    using a by (intro take_all) (simp, arith)
  finally show "\<exists>host' serv'.
         Ndb_split_string_address_port arg hostbuf hostlen servbuf servlen = (0, host', serv')
         \<and> c_str serv' 0 = decimal (unat (1186 :: 16 word))
         \<and> c_str (Ndb_combine_address_port buf bufsize (Some host') 1186) 0 = ''host:1186''"
    using res v by (simp add: decimal_1186)
next
  assume a: "c_str arg 0 = ''[::1]:1186''
        \<and> 3 < hostlen \<and> hostlen \<le> length hostbuf \<and> 4 < servlen \<and> servlen \<le> length servbuf
        \<and> 10 < bufsize \<and> bufsize \<le> length buf"
  then have s: "c_str arg 0 = CHR ''['' # ''::1'' @ CHR '']'' # CHR '':'' # ''1186''" by simp
  from split_bracket_colon_ok [OF s, of hostlen hostbuf servlen servbuf] a
  obtain host' serv' where
    res: "Ndb_split_string_address_port arg hostbuf hostlen servbuf servlen = (0, host', serv')"
    and h: "c_str host' 0 = ''::1''" and v: "c_str serv' 0 = ''1186''"
    by auto
  have "c_str (Ndb_combine_address_port buf bufsize (Some host') 1186) 0 =
      take (bufsize - 1) ''[::1]:1186''"
    using a by (simp add: combine_text h decimal_1186)
  also have "\<dots> = ''[::1]:1186''"
    using a by (intro take_all) (simp, arith)
  finally show "\<exists>host' serv'.
         Ndb_split_string_address_port arg hostbuf hostlen servbuf servlen = (0, host', serv')
         \<and> c_str serv' 0 = decimal (unat (1186 :: 16 word))
         \<and> c_str (Ndb_combine_address_port buf bufsize (Some host') 1186) 0 = ''[::1]:1186''"
    using res v by (simp add: decimal_1186)
next
  assume a: "c_str arg 0 = ''host''
        \<and> 4 < hostlen \<and> hostlen \<le> length hostbuf \<and> 0 < servlen \<and> servlen \<le> length servbuf"
  then have s: "c_str arg 0 = ''host''" by blast
  have "rd arg 0 \<noteq> CHR ''[''"
    by (simp add: rd_0 s)
  from split_whole_host_ok [OF this, of hostlen hostbuf servlen servbuf] a
  show "\<exists>host' serv'.
         Ndb_split_string_address_port arg hostbuf hostlen servbuf servlen = (0, host', serv')
         \<and> c_str host' 0 = ''host''"
    by (auto simp: s)
qed

lemma combine_renders_and_round_trips_examples:
  "c_str (Ndb_combine_address_port (replicate 32 CHR ''x'') 32 None 1186) 0 = ''*:1186''
   \<and> c_str (Ndb_combine_address_port (replicate 32 CHR ''x'') 32 (Some ''host'') 1186) 0 = ''host:1186''
   \<and> c_str (Ndb_combine_address_port (replicate 32 CHR ''x'') 32 (Some ''::1'') 1186) 0 = ''[::1]:1186''
   \<and> (\<exists>host' serv'.
         Ndb_split_string_address_port ''host:1186'' (replicate 16 CHR ''h'') 16 (replicate 8 CHR ''s'') 8 =
           (0, host', serv')
         \<and> c_str serv' 0 = ''1186''
         \<and> c_str (Ndb_combine_address_port (replicate 32 CHR ''x'') 32 (Some host') 1186) 0 = ''host:1186'')
   \<and> (\<exists>host' serv'.
         Ndb_split_string_address_port ''[::1]:1186'' (replicate 16 CHR ''h'') 16 (replicate 8 CHR ''s'') 8 =
           (0, host', serv')
         \<and> c_str serv' 0 = ''1186''
         \<and> c_str (Ndb_combine_address_port (replicate 32 CHR ''x'') 32 (Some host') 1186) 0 = ''[::1]:1186'')
   \<and> (\<exists>host' serv'.
         Ndb_split_string_address_port ''host'' (replicate 16 CHR ''h'') 16 (replicate 8 CHR ''s'') 8 =
           (0, host', serv')
         \<and> c_str host' 0 = ''host'')"
  using combine_renders_and_round_trips
      [of 32 "replicate 32 CHR ''x''" None 1186 "''host:1186''" 16 "replicate 16 CHR ''h''" 8
          "replicate 8 CHR ''s''"]
    combine_renders_and_round_trips
      [of 32 "replicate 32 CHR ''x''" "Some ''host''" 1186 "''[::1]:1186''" 16 "replicate 16 CHR ''h''" 8
          "replicate 8 CHR ''s''"]
    combine_renders_and_round_trips
      [of 32 "replicate 32 CHR ''x''" "Some ''::1''" 1186 "''host''" 16 "replicate 16 CHR ''h''" 8
          "replicate 8 CHR ''s''"]
  by (simp add: c_str_def NUL_def decimal_1186)

text \<open>
  C8. The input \<^verbatim>\<open>"[fe80::1]"\<close>, stored in memory in front of sixteen other bytes,
  with a host buffer and a service buffer of 16 bytes each. The host \<^verbatim>\<open>"fe80::1"\<close> and
  the empty service of the input fit, yet the split returns -1 and leaves both buffers
  as they were, so the host buffer does not hold \<^verbatim>\<open>"fe80::1"\<close>: the host is not
  preserved through the split. Line 250 takes \<^verbatim>\<open>strlen(port_colon + 1)\<close> with
  \<^verbatim>\<open>port_colon\<close> at the terminator and finds the sixteen bytes behind the input.
\<close>

theorem split_bracket_end_loses_host:
  "c_str (''[fe80::1]'' @ [NUL] @ ''0123456789abcdef'') 0 = ''[fe80::1]''
   \<and> spec_split ''[fe80::1]'' = Some (''fe80::1'', [])
   \<and> Ndb_split_string_address_port (''[fe80::1]'' @ [NUL] @ ''0123456789abcdef'')
        (replicate 16 CHR ''x'') 16 (replicate 16 CHR ''y'') 16 =
      (- 1, replicate 16 CHR ''x'', replicate 16 CHR ''y'')
   \<and> c_str (replicate 16 CHR ''x'') 0 \<noteq> ''fe80::1''"
proof -
  have input: "c_str (''[fe80::1]'' @ [NUL] @ ''0123456789abcdef'') 0 = ''[fe80::1]''"
    by (simp add: c_str_def NUL_def)
  have wanted: "spec_split ''[fe80::1]'' = Some (''fe80::1'', [])"
    by (simp add: spec_split_def)
  have refused: "Ndb_split_string_address_port (''[fe80::1]'' @ [NUL] @ ''0123456789abcdef'')
        (replicate 16 CHR ''x'') 16 (replicate 16 CHR ''y'') 16 =
      (- 1, replicate 16 CHR ''x'', replicate 16 CHR ''y'')"
    by (simp add: NUL_def Ndb_split_string_address_port_def rd_def c_strchr_def c_strlen_def
        c_str_def)
  have "length (c_str (replicate 16 CHR ''x'') 0) = 16"
    by (simp add: c_str_def NUL_def)
  then have untouched: "c_str (replicate 16 CHR ''x'') 0 \<noteq> ''fe80::1''"
    by auto
  from input wanted refused untouched show ?thesis
    by blast
qed

subsection \<open>The address formatter\<close>

lemma c_str_strncpy_trunc:
  assumes "NUL \<notin> set t" and "0 < n" and "n \<le> length dst"
  shows "c_str ((c_strncpy dst t n)[n - 1 := NUL]) 0 = take (n - 1) t"
proof (cases "length t < n")
  case True
  then show ?thesis
    using c_str_strncpy_last [OF assms(1) True assms(3)] by simp
next
  case False
  show ?thesis
  proof (rule c_str_prefix)
    show "NUL \<notin> set (take (n - 1) t)"
      using assms(1) by (auto dest: in_set_takeD)
    show "length (take (n - 1) t) < length ((c_strncpy dst t n)[n - 1 := NUL])"
      using assms False by (simp add: c_strncpy_def store_def)
    show "take (length (take (n - 1) t)) ((c_strncpy dst t n)[n - 1 := NUL]) = take (n - 1) t"
      using assms False by (simp add: c_strncpy_def store_def min_absorb2)
    show "(c_strncpy dst t n)[n - 1 := NUL] ! length (take (n - 1) t) = NUL"
      using assms False by (simp add: c_strncpy_def store_def min_absorb2)
  qed
qed

lemma length_strncpy: "length (c_strncpy dst t n) = length dst"
  by (simp add: c_strncpy_def store_def)

lemma length_store: "length (store buf off xs) = length buf"
  by (simp add: store_def)

lemma null_sentinel_text:
  assumes "0 < n" and "n \<le> length dst"
  shows "c_str (null_sentinel dst n) 0 = take (n - 1) ''null''"
    and "length (null_sentinel dst n) = length dst"
    and "c_strlen (null_sentinel dst n) 0 < n"
proof -
  have nul: "NUL \<notin> set ''null''"
    by (simp add: NUL_def)
  show body: "c_str (null_sentinel dst n) 0 = take (n - 1) ''null''"
    unfolding null_sentinel_def by (rule c_str_strncpy_trunc [OF nul assms])
  show "length (null_sentinel dst n) = length dst"
    by (simp add: null_sentinel_def length_strncpy)
  show "c_strlen (null_sentinel dst n) 0 < n"
    using assms(1) by (simp add: c_strlen_def body)
qed

lemma mapped_prefix_len_7: "mapped_prefix_len = 7"
  by (simp add: mapped_prefix_len_def mapped_prefix_def c_strlen_def c_str_def NUL_def)

lemma strncmp_mapped_prefix:
  "c_strncmp_eq mapped_prefix b mapped_prefix_len \<longleftrightarrow> take 7 (c_str b 0) = mapped_prefix"
proof -
  have "c_str mapped_prefix 0 = mapped_prefix"
    by (simp add: mapped_prefix_def c_str_def NUL_def)
  moreover have "take 7 mapped_prefix = mapped_prefix"
    by (simp add: mapped_prefix_def)
  ultimately show ?thesis
    by (auto simp: c_strncmp_eq_def mapped_prefix_len_7)
qed

lemma c_str_take: "c_str b 0 = take (c_strlen b 0) b"
  unfolding c_str_def c_strlen_def drop_0 by (rule takeWhile_eq_take)

lemma memmove_strips:
  assumes ends: "c_strlen b 0 < length b" and k: "k \<le> c_strlen b 0"
  shows "c_str (store b 0 (take (c_strlen b 0 - k + 1) (drop k b))) 0 = drop k (c_str b 0)"
    and "c_strlen (store b 0 (take (c_strlen b 0 - k + 1) (drop k b))) 0 < length b"
proof -
  define L where "L = c_strlen b 0"
  have str: "c_str b 0 = take L b"
    unfolding L_def by (rule c_str_take)
  have at: "b ! L = NUL"
    using rd_end [of b] ends by (simp add: rd_def L_def c_strlen_def)
  have L: "L < length b" "k \<le> L"
    using ends k by (simp_all add: L_def)
  let ?b' = "store b 0 (take (L - k + 1) (drop k b))"
  show body: "c_str (store b 0 (take (c_strlen b 0 - k + 1) (drop k b))) 0 = drop k (c_str b 0)"
    unfolding L_def [symmetric]
  proof (rule c_str_prefix)
    show "NUL \<notin> set (drop k (c_str b 0))"
      using NUL_notin_c_str [of b 0] by (auto dest: in_set_dropD)
    show "length (drop k (c_str b 0)) < length ?b'"
      using L by (simp add: str length_store)
    show "take (length (drop k (c_str b 0))) ?b' = drop k (c_str b 0)"
      using L by (simp add: str store_def min_absorb2 drop_take)
    show "?b' ! length (drop k (c_str b 0)) = NUL"
      using L at by (simp add: str store_def min_absorb2 nth_append)
  qed
  have "length (c_str (store b 0 (take (c_strlen b 0 - k + 1) (drop k b))) 0) = L - k"
    using L by (simp only: body) (simp add: str)
  then show "c_strlen (store b 0 (take (c_strlen b 0 - k + 1) (drop k b))) 0 < length b"
    using L unfolding c_strlen_def [of "store b 0 (take (c_strlen b 0 - k + 1) (drop k b))"]
    by simp
qed

text \<open>
  C7. A call of \<^verbatim>\<open>Ndb_inet_ntop\<close> with a capacity that is not 0, on a buffer of at
  least that many bytes, with a \<^verbatim>\<open>getnameinfo\<close> that keeps the buffer's length and, when
  it returns 0, leaves a string terminated inside the capacity. The call returns the
  buffer, and the string in it ends inside the capacity. If the family is neither
  \<^verbatim>\<open>AF_INET\<close> nor \<^verbatim>\<open>AF_INET6\<close>, or \<^verbatim>\<open>getnameinfo\<close> does not return 0, the string is
  \<^verbatim>\<open>"null"\<close> cut to \<open>dst_size - 1\<close> characters.
\<close>

theorem inet_ntop_terminated_or_null:
  assumes cap: "0 < dst_size" "dst_size \<le> length dst"
    and keep: "\<And>sa. length (snd (getnameinfo sa dst dst_size)) = length dst"
    and ok: "\<And>sa. fst (getnameinfo sa dst dst_size) = 0 \<Longrightarrow>
               c_strlen (snd (getnameinfo sa dst dst_size)) 0 < dst_size"
  shows "\<exists>out. Ndb_inet_ntop getnameinfo af src dst dst_size = Some out
      \<and> length out = length dst
      \<and> c_strlen out 0 < dst_size
      \<and> ((af \<noteq> AF_INET \<and> af \<noteq> AF_INET6)
          \<or> (af = AF_INET \<and> fst (getnameinfo (Sockaddr_in (ntop_sockaddr_in src)) dst dst_size) \<noteq> 0)
          \<or> (af = AF_INET6 \<and> fst (getnameinfo (Sockaddr_in6 (ntop_sockaddr_in6 src)) dst dst_size) \<noteq> 0)
          \<longrightarrow> c_str out 0 = take (dst_size - 1) ''null'')"
proof (cases af)
  case AF_INET
  obtain ret dst1 where g: "getnameinfo (Sockaddr_in (ntop_sockaddr_in src)) dst dst_size = (ret, dst1)"
    by (cases "getnameinfo (Sockaddr_in (ntop_sockaddr_in src)) dst dst_size")
  have len: "length dst1 = length dst"
    using keep [of "Sockaddr_in (ntop_sockaddr_in src)"] by (simp add: g)
  show ?thesis
  proof (cases "ret = 0")
    case True
    then have "c_strlen dst1 0 < dst_size"
      using ok [of "Sockaddr_in (ntop_sockaddr_in src)"] by (simp add: g)
    with True cap len show ?thesis
      by (simp add: Ndb_inet_ntop_def AF_INET g)
  next
    case False
    have "dst_size \<le> length dst1"
      using cap len by simp
    from null_sentinel_text [OF cap(1) this] False cap len show ?thesis
      by (simp add: Ndb_inet_ntop_def AF_INET g)
  qed
next
  case AF_INET6
  obtain ret dst1 where g: "getnameinfo (Sockaddr_in6 (ntop_sockaddr_in6 src)) dst dst_size = (ret, dst1)"
    by (cases "getnameinfo (Sockaddr_in6 (ntop_sockaddr_in6 src)) dst dst_size")
  have len: "length dst1 = length dst"
    using keep [of "Sockaddr_in6 (ntop_sockaddr_in6 src)"] by (simp add: g)
  define dst2 where "dst2 =
     (if c_strncmp_eq mapped_prefix dst1 mapped_prefix_len
      then store dst1 0 (take (c_strlen dst1 0 - mapped_prefix_len + 1) (drop mapped_prefix_len dst1))
      else dst1)"
  have len2: "length dst2 = length dst"
    by (simp add: dst2_def length_store len)
  have res: "Ndb_inet_ntop getnameinfo AF_INET6 src dst dst_size =
      (if ret \<noteq> 0 then Some (null_sentinel dst2 dst_size) else Some dst2)"
    using cap(1) by (simp add: Ndb_inet_ntop_def g Let_def dst2_def)
  show ?thesis
  proof (cases "ret = 0")
    case True
    then have fit: "c_strlen dst1 0 < dst_size"
      using ok [of "Sockaddr_in6 (ntop_sockaddr_in6 src)"] by (simp add: g)
    have "c_strlen dst2 0 < dst_size"
    proof (cases "c_strncmp_eq mapped_prefix dst1 mapped_prefix_len")
      case False
      with fit show ?thesis by (simp add: dst2_def)
    next
      case pre: True
      then have "take 7 (c_str dst1 0) = mapped_prefix"
        by (simp add: strncmp_mapped_prefix)
      then have "length (take 7 (c_str dst1 0)) = 7"
        by (simp add: mapped_prefix_def)
      then have k: "7 \<le> c_strlen dst1 0"
        by (simp add: c_strlen_def)
      have ends: "c_strlen dst1 0 < length dst1"
        using fit cap(2) len by simp
      have "c_str dst2 0 = drop 7 (c_str dst1 0)"
        using memmove_strips(1) [OF ends k] pre by (simp add: dst2_def mapped_prefix_len_7)
      then have "c_strlen dst2 0 = c_strlen dst1 0 - 7"
        by (simp add: c_strlen_def)
      with fit show ?thesis by simp
    qed
    with True len2 show ?thesis
      by (simp add: res AF_INET6 g)
  next
    case False
    have "dst_size \<le> length dst2"
      using cap len2 by simp
    from null_sentinel_text [OF cap(1) this] False len2 show ?thesis
      by (simp add: res AF_INET6 g)
  qed
next
  case AF_UNSPEC
  from null_sentinel_text [OF cap] cap show ?thesis
    by (simp add: Ndb_inet_ntop_def AF_UNSPEC)
next
  case AF_UNIX
  from null_sentinel_text [OF cap] cap show ?thesis
    by (simp add: Ndb_inet_ntop_def AF_UNIX)
qed

theorem inet_ntop_terminated_or_null_witness:
  "(\<exists>out. Ndb_inet_ntop (\<lambda>sa d n. (1, d)) AF_INET6 (replicate 16 0) (replicate 3 CHR ''x'') 3 = Some out
      \<and> length out = 3 \<and> c_strlen out 0 < 3 \<and> c_str out 0 = ''nu'')
   \<and> (\<exists>out. Ndb_inet_ntop (\<lambda>sa d n. (0, store d 0 (''10.0.0.1'' @ [NUL]))) AF_UNSPEC [10, 0, 0, 1]
          (replicate 16 CHR ''x'') 16 = Some out
      \<and> length out = 16 \<and> c_strlen out 0 < 16 \<and> c_str out 0 = ''null'')"
  using inet_ntop_terminated_or_null
      [of 3 "replicate 3 CHR ''x''" "\<lambda>sa d n. (1, d)" AF_INET6 "replicate 16 0"]
    inet_ntop_terminated_or_null
      [of 16 "replicate 16 CHR ''x''" "\<lambda>sa d n. (0, store d 0 (''10.0.0.1'' @ [NUL]))" AF_UNSPEC
          "[10, 0, 0, 1]"]
  by (simp add: length_store c_strlen_def c_str_def store_def NUL_def)

lemma inet_ntop_strips:
  assumes "0 < dst_size"
    and g: "getnameinfo (Sockaddr_in6 (ntop_sockaddr_in6 src)) dst dst_size = (0, dst1)"
    and ends: "c_strlen dst1 0 < length dst1"
    and pre: "c_str dst1 0 = mapped_prefix @ rest"
  shows "\<exists>out. Ndb_inet_ntop getnameinfo AF_INET6 src dst dst_size = Some out \<and> c_str out 0 = rest"
proof -
  have m: "c_strncmp_eq mapped_prefix dst1 mapped_prefix_len"
    by (simp add: strncmp_mapped_prefix pre) (simp add: mapped_prefix_def)
  have k: "7 \<le> c_strlen dst1 0"
    by (simp add: c_strlen_def pre mapped_prefix_def)
  have "c_str (store dst1 0 (take (c_strlen dst1 0 - 7 + 1) (drop 7 dst1))) 0 = drop 7 (c_str dst1 0)"
    by (rule memmove_strips(1) [OF ends k])
  also have "\<dots> = rest"
    by (simp add: pre mapped_prefix_def)
  finally show ?thesis
    using assms(1) m by (simp add: Ndb_inet_ntop_def g Let_def mapped_prefix_len_7)
qed

text \<open>
  C6. If \<^verbatim>\<open>getnameinfo\<close> returns 0 for the \<^verbatim>\<open>AF_INET6\<close> address and leaves a
  terminated string that starts with \<^verbatim>\<open>"::ffff:"\<close>, \<^verbatim>\<open>Ndb_inet_ntop\<close> returns the
  rest of that string. So if the resolver answers \<^verbatim>\<open>"127.0.0.1"\<close> with the IPv4 address
  127.0.0.1 first, and \<^verbatim>\<open>getnameinfo\<close> renders the IPv4-mapped address of it as
  \<^verbatim>\<open>"::ffff:127.0.0.1"\<close>, then \<^verbatim>\<open>Ndb_getInAddr6\<close> followed by \<^verbatim>\<open>Ndb_inet_ntop\<close>
  with \<^verbatim>\<open>AF_INET6\<close> gives \<^verbatim>\<open>"127.0.0.1"\<close>.
\<close>

theorem inet_ntop_strips_mapped_prefix:
  "(0 < dst_size
      \<and> getnameinfo (Sockaddr_in6 (ntop_sockaddr_in6 src)) dst dst_size = (0, dst1)
      \<and> c_strlen dst1 0 < length dst1
      \<and> c_str dst1 0 = mapped_prefix @ rest
      \<longrightarrow> (\<exists>out. Ndb_inet_ntop getnameinfo AF_INET6 src dst dst_size = Some out
             \<and> c_str out 0 = rest))
   \<and> (0 < dst_size \<and> length addr = 16 \<and> length (sin6_addr addr6) = 16
      \<and> getaddrinfo ''127.0.0.1'' =
          (0, Addrinfo_in \<lparr>sin_family = AF_INET, sin_addr = [127, 0, 0, 1]\<rparr> # ai_next)
      \<and> getnameinfo
          (Sockaddr_in6 \<lparr>sin6_family = AF_INET6,
             sin6_addr = replicate 10 0 @ [0xff, 0xff, 127, 0, 0, 1], sin6_scope_id = 0\<rparr>)
          dst dst_size = (0, dst1')
      \<and> c_strlen dst1' 0 < length dst1'
      \<and> c_str dst1' 0 = ''::ffff:127.0.0.1''
      \<longrightarrow> (\<exists>addr' out.
             Ndb_getInAddr6 getaddrinfo addr6 addr ''127.0.0.1'' = (0, addr')
             \<and> Ndb_inet_ntop getnameinfo AF_INET6 addr' dst dst_size = Some out
             \<and> c_str out 0 = ''127.0.0.1''))"
proof (intro conjI impI)
  assume "0 < dst_size
      \<and> getnameinfo (Sockaddr_in6 (ntop_sockaddr_in6 src)) dst dst_size = (0, dst1)
      \<and> c_strlen dst1 0 < length dst1
      \<and> c_str dst1 0 = mapped_prefix @ rest"
  then show "\<exists>out. Ndb_inet_ntop getnameinfo AF_INET6 src dst dst_size = Some out
      \<and> c_str out 0 = rest"
    using inet_ntop_strips [of dst_size getnameinfo src dst dst1 rest] by blast
next
  let ?a4 = "\<lparr>sin_family = AF_INET, sin_addr = [127, 0, 0, 1]\<rparr>"
  let ?mapped = "replicate 10 0 @ [0xff, 0xff, 127, 0, 0, 1] :: byte list"
  assume a: "0 < dst_size \<and> length addr = 16 \<and> length (sin6_addr addr6) = 16
      \<and> getaddrinfo ''127.0.0.1'' = (0, Addrinfo_in ?a4 # ai_next)
      \<and> getnameinfo
          (Sockaddr_in6 \<lparr>sin6_family = AF_INET6, sin6_addr = ?mapped, sin6_scope_id = 0\<rparr>)
          dst dst_size = (0, dst1')
      \<and> c_strlen dst1' 0 < length dst1'
      \<and> c_str dst1' 0 = ''::ffff:127.0.0.1''"
  have pref: "get_preferred_address (Addrinfo_in ?a4 # ai_next) = Addrinfo_in ?a4 # ai_next"
    by (simp add: get_preferred_address_def)
  have bytes: "sin6_addr (Ndb_make_ipv6_from_ipv4 addr6 ?a4) = ?mapped"
    using make_ipv6_bytes [of addr6 ?a4] a by simp
  have "memcpy_at addr 0 ?mapped 16 = ?mapped"
    using a by (intro memcpy_whole) simp_all
  then have resolve: "Ndb_getInAddr6 getaddrinfo addr6 addr ''127.0.0.1'' = (0, ?mapped)"
    using a by (simp add: Ndb_getInAddr6_def pref get_in6_addr_def bytes)
  have "memcpy_at (replicate 16 0) 0 ?mapped 16 = ?mapped"
    by (intro memcpy_whole) simp_all
  then have sa: "ntop_sockaddr_in6 ?mapped =
      \<lparr>sin6_family = AF_INET6, sin6_addr = ?mapped, sin6_scope_id = 0\<rparr>"
    by (simp add: ntop_sockaddr_in6_def)
  have "\<exists>out. Ndb_inet_ntop getnameinfo AF_INET6 ?mapped dst dst_size = Some out
      \<and> c_str out 0 = ''127.0.0.1''"
    using a by (intro inet_ntop_strips [where ?dst1.0 = dst1']) (simp_all add: sa mapped_prefix_def)
  with resolve show "\<exists>addr' out.
      Ndb_getInAddr6 getaddrinfo addr6 addr ''127.0.0.1'' = (0, addr')
      \<and> Ndb_inet_ntop getnameinfo AF_INET6 addr' dst dst_size = Some out
      \<and> c_str out 0 = ''127.0.0.1''"
    by blast
qed

theorem inet_ntop_strips_mapped_prefix_witness:
  "(\<exists>out. Ndb_inet_ntop (\<lambda>sa d n. (0, store d 0 (''::ffff:10.1.2.3'' @ [NUL]))) AF_INET6
        (replicate 10 0 @ [0xff, 0xff, 10, 1, 2, 3]) (replicate 46 CHR ''x'') 46 = Some out
      \<and> c_str out 0 = ''10.1.2.3'')
   \<and> (\<exists>addr' out.
        Ndb_getInAddr6
          (\<lambda>name. (0, [Addrinfo_in \<lparr>sin_family = AF_INET, sin_addr = [127, 0, 0, 1]\<rparr>]))
          \<lparr>sin6_family = AF_UNSPEC, sin6_addr = replicate 16 0xaa, sin6_scope_id = 9\<rparr>
          (replicate 16 0x55) ''127.0.0.1'' = (0, addr')
        \<and> Ndb_inet_ntop (\<lambda>sa d n. (0, store d 0 (''::ffff:127.0.0.1'' @ [NUL]))) AF_INET6 addr'
            (replicate 46 CHR ''x'') 46 = Some out
        \<and> c_str out 0 = ''127.0.0.1'')"
proof -
  have one: "\<exists>out. Ndb_inet_ntop (\<lambda>sa d n. (0, store d 0 (''::ffff:10.1.2.3'' @ [NUL]))) AF_INET6
        (replicate 10 0 @ [0xff, 0xff, 10, 1, 2, 3]) (replicate 46 CHR ''x'') 46 = Some out
      \<and> c_str out 0 = ''10.1.2.3''"
    using inet_ntop_strips_mapped_prefix
      [of 46 "\<lambda>sa d n. (0, store d 0 (''::ffff:10.1.2.3'' @ [NUL]))"
          "replicate 10 0 @ [0xff, 0xff, 10, 1, 2, 3]" "replicate 46 CHR ''x''"
          "store (replicate 46 CHR ''x'') 0 (''::ffff:10.1.2.3'' @ [NUL])" "''10.1.2.3''"]
    by (simp add: c_strlen_def c_str_def store_def NUL_def mapped_prefix_def)
  have two: "\<exists>addr' out.
        Ndb_getInAddr6
          (\<lambda>name. (0, [Addrinfo_in \<lparr>sin_family = AF_INET, sin_addr = [127, 0, 0, 1]\<rparr>]))
          \<lparr>sin6_family = AF_UNSPEC, sin6_addr = replicate 16 0xaa, sin6_scope_id = 9\<rparr>
          (replicate 16 0x55) ''127.0.0.1'' = (0, addr')
        \<and> Ndb_inet_ntop (\<lambda>sa d n. (0, store d 0 (''::ffff:127.0.0.1'' @ [NUL]))) AF_INET6 addr'
            (replicate 46 CHR ''x'') 46 = Some out
        \<and> c_str out 0 = ''127.0.0.1''"
    using inet_ntop_strips_mapped_prefix
      [of 46 "\<lambda>sa d n. (0, store d 0 (''::ffff:127.0.0.1'' @ [NUL]))" _ "replicate 46 CHR ''x''"
          _ _ "replicate 16 0x55"
          "\<lparr>sin6_family = AF_UNSPEC, sin6_addr = replicate 16 0xaa, sin6_scope_id = 9\<rparr>"
          "\<lambda>name. (0, [Addrinfo_in \<lparr>sin_family = AF_INET, sin_addr = [127, 0, 0, 1]\<rparr>])" "[]"
          "store (replicate 46 CHR ''x'') 0 (''::ffff:127.0.0.1'' @ [NUL])"]
    by (simp add: c_strlen_def c_str_def store_def NUL_def)
  from one two show ?thesis by blast
qed

subsection \<open>The socket liveness probe\<close>

lemma probe_poll_flags:
  "check_socket_hup_poll poll sock =
     (if revents (snd (poll \<lparr>fd = sock, events = POLLHUP OR POLLIN OR POLLOUT OR POLLNVAL,
            revents = 0\<rparr> 0)) AND (POLLHUP OR POLLERR) \<noteq> 0 then 1 else 0)"
  by (simp add: check_socket_hup_poll_def Let_def split: prod.split)

lemma probe_select_conservative:
  "select (ndb_socket_nfds sock 0 + 1) {sock} {sock} {sock} = (r, readfds, writefds, errorfds) \<Longrightarrow>
   getsockopt sock 0 = (g, s_err) \<Longrightarrow>
     check_socket_hup_select select getsockopt sock =
       (if r < 0 \<or> sock \<in> errorfds \<or> g \<noteq> 0 \<or> s_err \<noteq> 0 then 1 else 0)"
  by (simp add: check_socket_hup_select_def)

text \<open>
  C9. A \<^verbatim>\<open>poll\<close> that fails (returns -1 and leaves the array as it got it): the branch
  under \<^verbatim>\<open>HAVE_POLL\<close> returns 0, not hung up, for every socket; \<^verbatim>\<open>r\<close> is assigned
  at line 500 and never read. The branch without \<^verbatim>\<open>HAVE_POLL\<close> returns 1 when
  \<^verbatim>\<open>select\<close> fails (lines 519-523).
\<close>

theorem probe_poll_failure_reports_alive:
  "Ndb_check_socket_hup True (\<lambda>pfd timeout. (- 1, pfd)) select getsockopt sock = 0
   \<and> Ndb_check_socket_hup False poll (\<lambda>nfds readfds writefds errorfds. (- 1, readfds, writefds, errorfds))
       getsockopt sock = 1"
  by (simp add: Ndb_check_socket_hup_def check_socket_hup_poll_def check_socket_hup_select_def)

end
